theory Spec2Isabelle
  imports Main
begin

section \<open>The reload button extension (main.js)\<close>

text \<open>
  The background script keeps four pieces of process-wide state (\<open>is_theme_dark\<close>,
  \<open>page_action_title_idle\<close>, the map \<open>animation_timeouts\<close>, the map
  \<open>navigation_timestamp\<close>) and reacts to events of the host browser. Each listener and
  each promise continuation is one job of the event loop, run to completion; it is
  modelled as a function from the state before the job to the state after it. The
  part of the host the script talks to is kept in the same record: the clock read by
  \<open>Date.now()\<close>, the timers of \<open>window.setTimeout\<close>, and a log of the calls made
  to the \<open>browser.*\<close> API, each stamped with the clock reading of the job that
  made it. A job is modelled at one clock reading.
\<close>

subsection \<open>Data\<close>

text \<open>A tab as the script reads it: \<open>tab.id\<close> and \<open>tab.status\<close>.\<close>

record tab =
  tab_id :: int
  status :: string

text \<open>An entry of \<open>browser.management\<close>: \<open>id\<close>, \<open>type\<close>, \<open>enabled\<close>.\<close>

record extension_info =
  ext_id :: string
  ext_type :: string
  enabled :: bool

text \<open>
  The argument of a \<open>webNavigation\<close> listener. The time stamp is a whole number of
  milliseconds since the epoch, as \<open>Date.now()\<close> is; on such values the subtraction
  and comparison of line 193 to 200 are exact.
\<close>

record details =
  frameId :: int
  tabId :: int
  timeStamp :: int

text \<open>
  A localised string is kept symbolic: \<open>Message key substitution\<close> stands for
  \<open>browser.i18n.getMessage(key, substitution)\<close>. The title handed to \<open>setTitle\<close>
  is \<open>None\<close> when the script passes \<open>undefined\<close>.
\<close>

datatype message = Message string string

datatype effect =
    PageActionShow int
  | PageActionSetTitle int "message option"
  | BrowserActionSetTitle int "message option"
  | PageActionSetIcon int string
  | BrowserActionSetIcon int string
  | TabsQuery

text \<open>
  A pending timer of \<open>window.setTimeout\<close>: its handle, the clock reading at which it is
  due, and the tab captured by the callback of line 73.
\<close>

record timer =
  timer_handle :: nat
  timer_due :: int
  timer_tab :: tab

record state =
  is_theme_dark :: bool
  page_action_title_idle :: "message option"
  animation_timeouts :: "int \<rightharpoonup> nat"
  navigation_timestamp :: "int \<rightharpoonup> int"
  clock :: int
  timers :: "timer list"
  next_handle :: nat
  effects :: "(int \<times> effect) list"

datatype error = TypeError

subsection \<open>Host primitives\<close>

definition emit :: "effect \<Rightarrow> state \<Rightarrow> state" where
  "emit e s = s\<lparr>effects := effects s @ [(clock s, e)]\<rparr>"

text \<open>
  \<open>window.setTimeout(callback, delay)\<close>: the handle is a counter that is never reused;
  the callback is represented by the tab it captured.
\<close>

definition setTimeout :: "tab \<Rightarrow> int \<Rightarrow> state \<Rightarrow> nat \<times> state" where
  "setTimeout tab delay s =
     (next_handle s,
      s\<lparr>timers := timers s @ [\<lparr>timer_handle = next_handle s, timer_due = clock s + delay,
                                  timer_tab = tab\<rparr>],
        next_handle := Suc (next_handle s)\<rparr>)"

text \<open>\<open>window.clearTimeout(handle)\<close>: a handle that is not pending is ignored.\<close>

definition clearTimeout :: "nat \<Rightarrow> state \<Rightarrow> state" where
  "clearTimeout h s = s\<lparr>timers := filter (\<lambda>t. timer_handle t \<noteq> h) (timers s)\<rparr>"

text \<open>
  The decimal rendering of a number inside a template literal, for the integers
  \<open>Date.now()\<close> returns.
\<close>

definition digit :: "nat \<Rightarrow> char" where
  "digit d = ''0123456789'' ! d"

function number_digits :: "nat \<Rightarrow> string" where
  "number_digits n =
     (if n < 10 then [digit n] else number_digits (n div 10) @ [digit (n mod 10)])"
  by pat_completeness auto
termination
  by (relation "measure (\<lambda>n. n)") auto

declare number_digits.simps [simp del]

definition number_to_string :: "int \<Rightarrow> string" where
  "number_to_string i =
     (if i < 0 then CHR ''-'' # number_digits (nat (- i)) else number_digits (nat i))"

subsection \<open>Theme and titles (lines 6 to 38)\<close>

definition dark_theme_ids :: "string list" where
  "dark_theme_ids = [''firefox-compact-dark@mozilla.org@personas.mozilla.org'']"

definition page_action_title_busy :: message where
  "page_action_title_busy = Message ''page_action_busy_title'' ''Esc''"

text \<open>The command key sign U+2318 is three bytes in UTF-8.\<close>

definition command_key :: string where
  "command_key = [char_of (0xE2 :: nat), char_of (0x8C :: nat), char_of (0x98 :: nat)]"

text \<open>The continuation of \<open>browser.runtime.getPlatformInfo()\<close>, lines 35 to 38.\<close>

definition getPlatformInfo_then :: "string \<Rightarrow> state \<Rightarrow> state" where
  "getPlatformInfo_then os s =
     s\<lparr>page_action_title_idle :=
         Some (Message ''page_action_idle_title''
                 ((if os = ''mac'' then command_key else ''Ctrl'') @ ''+R''))\<rparr>"

subsection \<open>The icon (lines 50 to 110)\<close>

text \<open>
  The value of \<open>path\<close> computed in lines 57 to 90, as a function of what it reads:
  \<open>is_theme_dark\<close>, \<open>tab.status\<close>, \<open>is_animated\<close> and \<open>Date.now()\<close>.
\<close>

definition icon_path :: "bool \<Rightarrow> string \<Rightarrow> bool \<Rightarrow> int \<Rightarrow> string" where
  "icon_path dark st is_animated now =
     (if is_animated then
        (let reload_icon_path =
               (if dark then ''data/reload_to_stop_dark.svg''
                else ''data/reload_to_stop_light.svg'');
             stop_icon_path =
               (if dark then ''data/stop_to_reload_dark.svg''
                else ''data/stop_to_reload_light.svg'');
             timestamp = ''?t='' @ number_to_string now
         in (if st = ''loading'' then stop_icon_path else reload_icon_path) @ timestamp)
      else
        (let reload_icon_path =
               (if dark then ''data/reload_dark.svg'' else ''data/reload_light.svg'');
             stop_icon_path =
               (if dark then ''data/stop_dark.svg'' else ''data/stop_light.svg'')
         in if st = ''loading'' then stop_icon_path else reload_icon_path))"

definition update_page_action_icon :: "tab \<Rightarrow> bool \<Rightarrow> state \<Rightarrow> state" where
  "update_page_action_icon tab is_animated s =
     (let s1 = (case animation_timeouts s (tab_id tab) of
                  Some h \<Rightarrow> clearTimeout h s
                | None \<Rightarrow> s);
          path = icon_path (is_theme_dark s1) (status tab) is_animated (clock s1);
          s2 = (if is_animated then
                  (let (timeout_id, s') = setTimeout tab 417 s1
                   in s'\<lparr>animation_timeouts :=
                           (animation_timeouts s')(tab_id tab \<mapsto> timeout_id)\<rparr>)
                else s1)
      in emit (BrowserActionSetIcon (tab_id tab) path)
           (emit (PageActionSetIcon (tab_id tab) path) s2))"

text \<open>The callback of the timer set in line 73, run by the host with the captured tab.\<close>

definition timeout_callback :: "tab \<Rightarrow> state \<Rightarrow> state" where
  "timeout_callback tab s =
     (let s1 = update_page_action_icon tab False s
      in s1\<lparr>animation_timeouts := (animation_timeouts s1)(tab_id tab := None)\<rparr>)"

text \<open>
  \<open>update_all_page_action_icons\<close> only issues \<open>browser.tabs.query({})\<close>; the loop of
  lines 106 to 108 is the continuation, run with the tabs the query resolves to.
\<close>

definition update_all_page_action_icons :: "state \<Rightarrow> state" where
  "update_all_page_action_icons s = emit TabsQuery s"

definition update_all_page_action_icons_then :: "tab list \<Rightarrow> state \<Rightarrow> state" where
  "update_all_page_action_icons_then tabs s =
     foldl (\<lambda>s' tab. update_page_action_icon tab True s') s tabs"

text \<open>
  The continuation of \<open>browser.management.getAll()\<close>, lines 14 to 20. Reading
  \<open>current_theme.id\<close> throws when the filter selected nothing; nothing has been
  assigned by then.
\<close>

definition management_getAll_then :: "extension_info list \<Rightarrow> state \<Rightarrow> error + state" where
  "management_getAll_then extensions s =
     (case filter (\<lambda>ext. ext_type ext = ''theme'' \<and> enabled ext) extensions of
        [] \<Rightarrow> Inl TypeError
      | current_theme # _ \<Rightarrow>
          Inr (update_all_page_action_icons
                 (s\<lparr>is_theme_dark := ext_id current_theme \<in> set dark_theme_ids\<rparr>)))"

text \<open>The listener of \<open>browser.management.onEnabled\<close>, lines 23 to 28.\<close>

definition management_onEnabled :: "extension_info \<Rightarrow> state \<Rightarrow> state" where
  "management_onEnabled info s =
     (if ext_type info = ''theme'' then
        update_all_page_action_icons
          (s\<lparr>is_theme_dark := ext_id info \<in> set dark_theme_ids\<rparr>)
      else s)"

subsection \<open>The title (lines 118 to 130) and the tab listeners (lines 159 to 174)\<close>

definition update_page_action :: "tab \<Rightarrow> state \<Rightarrow> state" where
  "update_page_action tab s =
     (let title = (if status tab = ''loading'' then Some page_action_title_busy
                   else page_action_title_idle s)
      in emit (BrowserActionSetTitle (tab_id tab) title)
           (emit (PageActionSetTitle (tab_id tab) title)
              (emit (PageActionShow (tab_id tab)) s)))"

text \<open>The continuation of the query of line 159, run with the tabs it resolves to.\<close>

definition startup_query_then :: "tab list \<Rightarrow> state \<Rightarrow> state" where
  "startup_query_then tabs s =
     foldl (\<lambda>s' tab. update_page_action_icon tab True (update_page_action tab s')) s tabs"

definition tabs_onCreated :: "tab \<Rightarrow> state \<Rightarrow> state" where
  "tabs_onCreated tab s = update_page_action_icon tab True (update_page_action tab s)"

definition tabs_onUpdated :: "tab \<Rightarrow> state \<Rightarrow> state" where
  "tabs_onUpdated tab s = update_page_action tab s"

subsection \<open>Navigation (lines 181 to 218)\<close>

text \<open>The value of \<open>should_animate\<close> after lines 189 to 203.\<close>

definition should_animate :: "(int \<rightharpoonup> int) \<Rightarrow> details \<Rightarrow> bool" where
  "should_animate stamps d =
     (case stamps (tabId d) of
        None \<Rightarrow> True
      | Some previous \<Rightarrow> \<not> (timeStamp d - previous < 417))"

text \<open>The continuation of \<open>browser.tabs.get(details.tabId)\<close>, lines 188 to 210.\<close>

definition on_navigation_then :: "details \<Rightarrow> tab \<Rightarrow> state \<Rightarrow> state" where
  "on_navigation_then d tab s =
     (let animate = should_animate (navigation_timestamp s) d;
          s1 = update_page_action_icon tab animate (update_page_action tab s)
      in s1\<lparr>navigation_timestamp := (navigation_timestamp s1)(tabId d \<mapsto> timeStamp d)\<rparr>)"

text \<open>
  \<open>on_navigation\<close> with the outcome of \<open>browser.tabs.get\<close>: \<open>Some tab\<close> when it
  resolves, \<open>None\<close> when it rejects and the continuation never runs.
\<close>

definition on_navigation :: "details \<Rightarrow> tab option \<Rightarrow> state \<Rightarrow> state" where
  "on_navigation d fetched s =
     (if frameId d \<noteq> 0 then s
      else case fetched of None \<Rightarrow> s | Some tab \<Rightarrow> on_navigation_then d tab s)"

subsection \<open>The event loop\<close>

text \<open>
  The host runs a timer that is pending and due: it takes the timer off its list and
  calls the callback. A handle that is not pending, or not yet due, does nothing.
\<close>

definition timer_fires :: "nat \<Rightarrow> state \<Rightarrow> state" where
  "timer_fires h s =
     (case find (\<lambda>t. timer_handle t = h) (timers s) of
        None \<Rightarrow> s
      | Some t \<Rightarrow>
          if clock s < timer_due t then s
          else timeout_callback (timer_tab t)
                 (s\<lparr>timers := filter (\<lambda>t'. timer_handle t' \<noteq> h) (timers s)\<rparr>))"

definition advance_clock :: "int \<Rightarrow> state \<Rightarrow> state" where
  "advance_clock t s = s\<lparr>clock := max (clock s) t\<rparr>"

text \<open>
  The jobs the host starts from outside: the continuations of the three requests made
  while the script loads, the continuation of the query made by
  \<open>update_all_page_action_icons\<close>, and the listeners. A continuation that throws
  leaves the state as it was when it threw.
\<close>

datatype event =
    GetAllResolved "extension_info list"
  | ThemeEnabled extension_info
  | PlatformInfoResolved string
  | RefreshQueryResolved "tab list"
  | StartupQueryResolved "tab list"
  | TabCreated tab
  | TabUpdated tab
  | Navigation details "tab option"

definition dispatch :: "event \<Rightarrow> state \<Rightarrow> state" where
  "dispatch ev s =
     (case ev of
        GetAllResolved extensions \<Rightarrow>
          (case management_getAll_then extensions s of Inl _ \<Rightarrow> s | Inr s' \<Rightarrow> s')
      | ThemeEnabled info \<Rightarrow> management_onEnabled info s
      | PlatformInfoResolved os \<Rightarrow> getPlatformInfo_then os s
      | RefreshQueryResolved tabs \<Rightarrow> update_all_page_action_icons_then tabs s
      | StartupQueryResolved tabs \<Rightarrow> startup_query_then tabs s
      | TabCreated tab \<Rightarrow> tabs_onCreated tab s
      | TabUpdated tab \<Rightarrow> tabs_onUpdated tab s
      | Navigation d fetched \<Rightarrow> on_navigation d fetched s)"

text \<open>
  One step of the event loop is a job started by the host, a timer firing, or time
  passing. Any interleaving of these is a run.
\<close>

datatype action = Host event | TimerFires nat | ClockAdvances int

fun step :: "action \<Rightarrow> state \<Rightarrow> state" where
  "step (Host ev) s = dispatch ev s"
| "step (TimerFires h) s = timer_fires h s"
| "step (ClockAdvances t) s = advance_clock t s"

fun exec :: "action list \<Rightarrow> state \<Rightarrow> state" where
  "exec [] s = s"
| "exec (a # as) s = exec as (step a s)"

text \<open>The state once the script has loaded, at clock reading \<open>c\<close> (lines 6, 31, 41, 181).\<close>

definition initial_state :: "int \<Rightarrow> state" where
  "initial_state c =
     \<lparr>is_theme_dark = False, page_action_title_idle = None,
      animation_timeouts = Map.empty, navigation_timestamp = Map.empty,
      clock = c, timers = [], next_handle = 1, effects = []\<rparr>"

text \<open>
  A punctual host: when the clock is moved to \<open>T\<close>, the timers due by then are run in
  the order of their due times, each at its due time. The callbacks of this script set
  no timers, so the timers to run are known beforehand; one cancelled in between is
  skipped by \<open>timer_fires\<close>.
\<close>

definition fire_at_due :: "timer \<Rightarrow> state \<Rightarrow> state" where
  "fire_at_due t s = timer_fires (timer_handle t) (advance_clock (timer_due t) s)"

definition run_until :: "int \<Rightarrow> state \<Rightarrow> state" where
  "run_until T s =
     advance_clock T
       (foldl (\<lambda>s' t. fire_at_due t s') s
          (sort_key timer_due (filter (\<lambda>t. timer_due t \<le> T) (timers s))))"

text \<open>A run of host events, each at its time, on the punctual host.\<close>

fun run_timed :: "(int \<times> event) list \<Rightarrow> state \<Rightarrow> state" where
  "run_timed [] s = s"
| "run_timed ((t, ev) # evs) s = run_timed evs (dispatch ev (run_until t s))"

subsection \<open>Observations\<close>

text \<open>The calls logged by a job that took \<open>s\<close> to \<open>s'\<close>.\<close>

definition emitted :: "state \<Rightarrow> state \<Rightarrow> (int \<times> effect) list" where
  "emitted s s' = drop (length (effects s)) (effects s')"

text \<open>The pending timers whose callback is about tab \<open>k\<close>.\<close>

definition timers_of :: "int \<Rightarrow> state \<Rightarrow> timer list" where
  "timers_of k s = filter (\<lambda>t. tab_id (timer_tab t) = k) (timers s)"

text \<open>The icon the page action of tab \<open>k\<close> shows, and when it was set: the last call.\<close>

fun icon_shown :: "int \<Rightarrow> (int \<times> effect) list \<Rightarrow> (int \<times> string) option" where
  "icon_shown k [] = None"
| "icon_shown k ((t, e) # es) =
     (case icon_shown k es of
        Some r \<Rightarrow> Some r
      | None \<Rightarrow> (case e of
                   PageActionSetIcon k' p \<Rightarrow> if k' = k then Some (t, p) else None
                 | _ \<Rightarrow> None))"

text \<open>
  The top-level navigations of tab \<open>k\<close> in a run whose tab lookup resolved, that is,
  those for which the continuation of lines 188 to 210 runs.
\<close>

fun navigation_of :: "int \<Rightarrow> action \<Rightarrow> details option" where
  "navigation_of k (Host (Navigation d (Some tab))) =
     (if frameId d = 0 \<and> tabId d = k then Some d else None)"
| "navigation_of k _ = None"

definition stamps :: "int \<Rightarrow> action list \<Rightarrow> int list" where
  "stamps k as = map timeStamp (List.map_filter (navigation_of k) as)"

text \<open>
  What a job that took \<open>s\<close> to \<open>s'\<close> did about animation, read off the host: it
  called \<open>setTimeout\<close> exactly when the handle counter moved, and only the animated
  icon update calls \<open>setTimeout\<close>.
\<close>

definition scheduled :: "state \<Rightarrow> state \<Rightarrow> bool" where
  "scheduled s s' = (next_handle s' \<noteq> next_handle s)"

text \<open>
  What the jobs of the top-level navigations of tab \<open>k\<close> did, in order, during a run
  from \<open>s\<close>: for each, whether it made the animated update.
\<close>

fun decisions :: "int \<Rightarrow> action list \<Rightarrow> state \<Rightarrow> bool list" where
  "decisions k [] s = []"
| "decisions k (a # as) s =
     (case navigation_of k a of
        Some d \<Rightarrow> [scheduled s (step a s)]
      | None \<Rightarrow> []) @ decisions k as (step a s)"

subsection \<open>The debouncer as the specification words it\<close>

text \<open>
  \<open>shouldAnimate\<close> on the prior timestamp of the tab, if any: animate when there is
  none; otherwise do not animate when the difference is below 417, else animate. Over
  a sequence of timestamps, each one becomes the prior timestamp of the next.
\<close>

definition shouldAnimate :: "int option \<Rightarrow> int \<Rightarrow> bool" where
  "shouldAnimate prior eventTimestamp =
     (case prior of
        None \<Rightarrow> True
      | Some priorTimestamp \<Rightarrow>
          (let delta = eventTimestamp - priorTimestamp
           in if delta < 417 then False else True))"

fun debounce :: "int option \<Rightarrow> int list \<Rightarrow> bool list" where
  "debounce prior [] = []"
| "debounce prior (t # ts) = shouldAnimate prior t # debounce (Some t) ts"

subsection \<open>Invariants of the timer bookkeeping\<close>

text \<open>
  Every pending timer is the one the map records for its tab; handles are pairwise
  different and below the counter, as are the handles the map holds; and a pending
  timer's handle is recorded for no other tab.
\<close>

definition timers_tracked :: "state \<Rightarrow> bool" where
  "timers_tracked s =
     list_all (\<lambda>t. animation_timeouts s (tab_id (timer_tab t)) = Some (timer_handle t))
       (timers s)"

definition handles_fresh :: "state \<Rightarrow> bool" where
  "handles_fresh s =
     (distinct (map timer_handle (timers s)) \<and>
      list_all (\<lambda>t. timer_handle t < next_handle s) (timers s) \<and>
      (\<forall>k h. animation_timeouts s k = Some h \<longrightarrow> h < next_handle s))"

definition handles_owned :: "state \<Rightarrow> bool" where
  "handles_owned s =
     (\<forall>t \<in> set (timers s). \<forall>k.
        animation_timeouts s k = Some (timer_handle t) \<longrightarrow> k = tab_id (timer_tab t))"

definition bookkeeping :: "state \<Rightarrow> bool" where
  "bookkeeping s = (timers_tracked s \<and> handles_fresh s \<and> handles_owned s)"

text \<open>The host events that make an icon update for tab \<open>k\<close>.\<close>

fun touches :: "int \<Rightarrow> event \<Rightarrow> bool" where
  "touches k (RefreshQueryResolved tabs) = (k \<in> set (map tab_id tabs))"
| "touches k (StartupQueryResolved tabs) = (k \<in> set (map tab_id tabs))"
| "touches k (TabCreated tab) = (tab_id tab = k)"
| "touches k (Navigation d (Some tab)) = (frameId d = 0 \<and> tab_id tab = k)"
| "touches k _ = False"

text \<open>
  A settle timer waits in a state when it is pending there and the bookkeeping holds;
  a tab has settled when no timer is pending for it.
\<close>

definition waiting :: "timer \<Rightarrow> state \<Rightarrow> bool" where
  "waiting tm s = (bookkeeping s \<and> tm \<in> set (timers s))"

definition settled :: "int \<Rightarrow> state \<Rightarrow> bool" where
  "settled k s = (bookkeeping s \<and> timers_of k s = [])"

text \<open>
  A handle is spent when the counter has passed it and no pending timer bears it; it
  belongs to tab \<open>k\<close> when the counter has passed it and any pending timer bearing it
  is about tab \<open>k\<close>.
\<close>

definition spent :: "nat \<Rightarrow> state \<Rightarrow> bool" where
  "spent n s = (n < next_handle s \<and> n \<notin> set (map timer_handle (timers s)))"

definition belongs :: "nat \<Rightarrow> int \<Rightarrow> state \<Rightarrow> bool" where
  "belongs n k s =
     (n < next_handle s \<and>
      list_all (\<lambda>t. timer_handle t \<noteq> n \<or> tab_id (timer_tab t) = k) (timers s))"

section \<open>Properties\<close>

subsection \<open>What one icon update does to each part of the state\<close>

lemma emit_fields:
  "is_theme_dark (emit e s) = is_theme_dark s"
  "page_action_title_idle (emit e s) = page_action_title_idle s"
  "animation_timeouts (emit e s) = animation_timeouts s"
  "navigation_timestamp (emit e s) = navigation_timestamp s"
  "clock (emit e s) = clock s"
  "timers (emit e s) = timers s"
  "next_handle (emit e s) = next_handle s"
  "effects (emit e s) = effects s @ [(clock s, e)]"
  by (simp_all add: emit_def)

lemma clearTimeout_fields:
  "is_theme_dark (clearTimeout h s) = is_theme_dark s"
  "page_action_title_idle (clearTimeout h s) = page_action_title_idle s"
  "animation_timeouts (clearTimeout h s) = animation_timeouts s"
  "navigation_timestamp (clearTimeout h s) = navigation_timestamp s"
  "clock (clearTimeout h s) = clock s"
  "timers (clearTimeout h s) = filter (\<lambda>t. timer_handle t \<noteq> h) (timers s)"
  "next_handle (clearTimeout h s) = next_handle s"
  "effects (clearTimeout h s) = effects s"
  by (simp_all add: clearTimeout_def)

lemma icon_unchanged:
  "is_theme_dark (update_page_action_icon tab a s) = is_theme_dark s"
  "page_action_title_idle (update_page_action_icon tab a s) = page_action_title_idle s"
  "navigation_timestamp (update_page_action_icon tab a s) = navigation_timestamp s"
  "clock (update_page_action_icon tab a s) = clock s"
  by (simp_all add: update_page_action_icon_def setTimeout_def Let_def emit_fields
      clearTimeout_fields split: option.splits)

lemma icon_effects:
  "effects (update_page_action_icon tab a s) =
     effects s @
     [(clock s, PageActionSetIcon (tab_id tab)
                  (icon_path (is_theme_dark s) (status tab) a (clock s))),
      (clock s, BrowserActionSetIcon (tab_id tab)
                  (icon_path (is_theme_dark s) (status tab) a (clock s)))]"
  by (simp add: update_page_action_icon_def setTimeout_def Let_def emit_fields
      clearTimeout_fields split: option.splits)

lemma icon_timers:
  "timers (update_page_action_icon tab a s) =
     (case animation_timeouts s (tab_id tab) of
        Some h \<Rightarrow> filter (\<lambda>t. timer_handle t \<noteq> h) (timers s)
      | None \<Rightarrow> timers s) @
     (if a then [\<lparr>timer_handle = next_handle s, timer_due = clock s + 417,
                   timer_tab = tab\<rparr>]
      else [])"
  by (simp add: update_page_action_icon_def setTimeout_def Let_def emit_fields
      clearTimeout_fields split: option.splits)

lemma icon_timeouts:
  "animation_timeouts (update_page_action_icon tab a s) =
     (if a then (animation_timeouts s)(tab_id tab \<mapsto> next_handle s)
      else animation_timeouts s)"
  by (simp add: update_page_action_icon_def setTimeout_def Let_def emit_fields
      clearTimeout_fields split: option.splits)

lemma icon_next_handle:
  "next_handle (update_page_action_icon tab a s) =
     (if a then Suc (next_handle s) else next_handle s)"
  by (simp add: update_page_action_icon_def setTimeout_def Let_def emit_fields
      clearTimeout_fields split: option.splits)

lemma title_fields:
  "is_theme_dark (update_page_action tab s) = is_theme_dark s"
  "page_action_title_idle (update_page_action tab s) = page_action_title_idle s"
  "animation_timeouts (update_page_action tab s) = animation_timeouts s"
  "navigation_timestamp (update_page_action tab s) = navigation_timestamp s"
  "clock (update_page_action tab s) = clock s"
  "timers (update_page_action tab s) = timers s"
  "next_handle (update_page_action tab s) = next_handle s"
  by (simp_all add: update_page_action_def Let_def emit_fields)

lemma title_effects:
  "effects (update_page_action tab s) =
     effects s @
     [(clock s, PageActionShow (tab_id tab)),
      (clock s, PageActionSetTitle (tab_id tab)
                  (if status tab = ''loading'' then Some page_action_title_busy
                   else page_action_title_idle s)),
      (clock s, BrowserActionSetTitle (tab_id tab)
                  (if status tab = ''loading'' then Some page_action_title_busy
                   else page_action_title_idle s))]"
  by (simp add: update_page_action_def Let_def emit_fields)

lemma emitted_append: "effects s' = effects s @ es \<Longrightarrow> emitted s s' = es"
  by (simp add: emitted_def)

subsection \<open>The decimal rendering is injective\<close>

lemma digit_inj: "d < 10 \<Longrightarrow> d' < 10 \<Longrightarrow> digit d = digit d' \<Longrightarrow> d = d'"
proof -
  have dist: "distinct ''0123456789''" by simp
  assume "d < 10" "d' < 10" "digit d = digit d'"
  then show ?thesis
    using dist unfolding digit_def by (simp add: nth_eq_iff_index_eq)
qed

lemma digit_not_minus: "d < 10 \<Longrightarrow> digit d \<noteq> CHR ''-''"
proof -
  assume "d < 10"
  then have "digit d \<in> set ''0123456789''" unfolding digit_def by (simp del: set_simps)
  then show ?thesis by auto
qed

lemma number_digits_not_Nil: "number_digits n \<noteq> []"
  by (subst number_digits.simps) simp

lemma number_digits_inj: "number_digits m = number_digits n \<Longrightarrow> m = n"
proof (induction m arbitrary: n rule: number_digits.induct)
  case (1 m)
  show ?case
  proof (cases "m < 10")
    case small: True
    show ?thesis
    proof (cases "n < 10")
      case True
      with small "1.prems" show ?thesis
        by (simp add: number_digits.simps [of m] number_digits.simps [of n] digit_inj)
    next
      case False
      with small "1.prems" show ?thesis
        using number_digits_not_Nil [of "n div 10"]
        by (simp add: number_digits.simps [of m] number_digits.simps [of n])
    qed
  next
    case big: False
    show ?thesis
    proof (cases "n < 10")
      case True
      with big "1.prems" show ?thesis
        using number_digits_not_Nil [of "m div 10"]
        by (simp add: number_digits.simps [of m] number_digits.simps [of n])
    next
      case False
      with big "1.prems" have eq: "number_digits (m div 10) = number_digits (n div 10)"
        and d: "digit (m mod 10) = digit (n mod 10)"
        by (simp_all add: number_digits.simps [of m] number_digits.simps [of n])
      from "1.IH" [OF big eq] have "m div 10 = n div 10" .
      moreover from d have "m mod 10 = n mod 10" by (simp add: digit_inj)
      ultimately show ?thesis by (metis div_mult_mod_eq)
    qed
  qed
qed

lemma number_digits_hd: "hd (number_digits n) \<noteq> CHR ''-''"
proof (induction n rule: number_digits.induct)
  case (1 n)
  show ?case
  proof (cases "n < 10")
    case True
    then show ?thesis by (simp add: number_digits.simps [of n] digit_not_minus)
  next
    case False
    with 1 show ?thesis
      using number_digits_not_Nil [of "n div 10"]
      by (simp add: number_digits.simps [of n])
  qed
qed

lemma number_to_string_inj: "number_to_string i = number_to_string j \<Longrightarrow> i = j"
proof -
  assume eq: "number_to_string i = number_to_string j"
  have neg_pos: "CHR ''-'' # number_digits a \<noteq> number_digits b" for a b
    using number_digits_hd [of b] by (metis list.sel(1))
  show ?thesis
  proof (cases "i < 0")
    case i: True
    show ?thesis
    proof (cases "j < 0")
      case True
      with i eq have "nat (- i) = nat (- j)"
        by (simp add: number_to_string_def number_digits_inj)
      with i True show ?thesis by simp
    next
      case False
      with i eq neg_pos show ?thesis by (simp add: number_to_string_def)
    qed
  next
    case i: False
    show ?thesis
    proof (cases "j < 0")
      case True
      with i eq neg_pos [of "nat (- j)" "nat i"] show ?thesis
        by (simp add: number_to_string_def)
    next
      case False
      with i eq have "nat i = nat j"
        by (simp add: number_to_string_def number_digits_inj)
      with i False show ?thesis by simp
    qed
  qed
qed

lemma icon_path_settled:
  "icon_path dark st False now =
     ''data/'' @ (if st = ''loading'' then ''stop'' else ''reload'') @
     (if dark then ''_dark'' else ''_light'') @ ''.svg''"
  by (simp add: icon_path_def)

lemma icon_path_transition:
  "icon_path dark st True now =
     ''data/'' @ (if st = ''loading'' then ''stop_to_reload'' else ''reload_to_stop'') @
     (if dark then ''_dark'' else ''_light'') @ ''.svg'' @ ''?t='' @ number_to_string now"
  by (simp add: icon_path_def)

lemma icon_path_transition_eq:
  "icon_path dark st True n1 = icon_path dark st True n2 \<longleftrightarrow> n1 = n2"
  by (auto simp: icon_path_def dest: number_to_string_inj)

lemma number_to_string_0: "number_to_string 0 = ''0''"
  by (simp add: number_to_string_def number_digits.simps digit_def)

section \<open>The claims\<close>

subsection \<open>Icon path resolution\<close>

text \<open>
  C3, counterexample. With the light theme and a tab whose status is \<open>loading\<close>, the
  animated update applies the asset \<open>data/stop_to_reload_light.svg\<close> (with its
  marker), not a \<open>reload_to_stop\<close> asset.
\<close>

theorem transition_clip_for_loading_counterexample:
  "map snd (emitted (initial_state 0)
     (update_page_action_icon \<lparr>tab_id = 1, status = ''loading''\<rparr> True (initial_state 0))) =
     [PageActionSetIcon 1 ''data/stop_to_reload_light.svg?t=0'',
      BrowserActionSetIcon 1 ''data/stop_to_reload_light.svg?t=0'']
   \<and> take 19 (icon_path False ''loading'' True 0) \<noteq> ''data/reload_to_stop''"
  by (simp add: emitted_append [OF icon_effects] initial_state_def icon_path_transition
      number_to_string_0)

text \<open>
  C3, as amended. The animated update applies, on both surfaces, the
  \<open>stop_to_reload\<close> asset when the tab's status is \<open>loading\<close> and the
  \<open>reload_to_stop\<close> asset otherwise, followed by the marker; the still update applies
  the \<open>stop\<close> icon when the status is \<open>loading\<close> and the \<open>reload\<close> icon
  otherwise; the theme flag selects the \<open>_dark\<close> or \<open>_light\<close> variant in all four
  cases.
\<close>

theorem icon_path_resolution:
  "map snd (emitted s (update_page_action_icon tab True s)) =
     (let path = ''data/'' @
            (if status tab = ''loading'' then ''stop_to_reload'' else ''reload_to_stop'') @
            (if is_theme_dark s then ''_dark'' else ''_light'') @ ''.svg'' @
            ''?t='' @ number_to_string (clock s)
      in [PageActionSetIcon (tab_id tab) path, BrowserActionSetIcon (tab_id tab) path])
   \<and> map snd (emitted s (update_page_action_icon tab False s)) =
     (let path = ''data/'' @ (if status tab = ''loading'' then ''stop'' else ''reload'') @
            (if is_theme_dark s then ''_dark'' else ''_light'') @ ''.svg''
      in [PageActionSetIcon (tab_id tab) path, BrowserActionSetIcon (tab_id tab) path])"
  by (simp add: emitted_append [OF icon_effects] icon_path_transition icon_path_settled
      Let_def)

text \<open>
  C7, counterexample. Two invocations in one loop, for two tabs of the same status
  under the same theme, read the same clock and apply the same transition asset,
  marker included.
\<close>

theorem same_millisecond_same_marker_counterexample:
  "map snd (emitted (initial_state 0)
     (update_all_page_action_icons_then
        [\<lparr>tab_id = 1, status = ''complete''\<rparr>, \<lparr>tab_id = 2, status = ''complete''\<rparr>]
        (initial_state 0))) =
     [PageActionSetIcon 1 ''data/reload_to_stop_light.svg?t=0'',
      BrowserActionSetIcon 1 ''data/reload_to_stop_light.svg?t=0'',
      PageActionSetIcon 2 ''data/reload_to_stop_light.svg?t=0'',
      BrowserActionSetIcon 2 ''data/reload_to_stop_light.svg?t=0'']"
  by (simp add: emitted_def update_all_page_action_icons_then_def icon_effects icon_unchanged
      initial_state_def icon_path_transition number_to_string_0)

text \<open>
  C7, as amended. For the same status and theme the still path is the same at every
  clock reading, and two transition paths are equal exactly when the clock readings of
  the two invocations are equal: the marker is the reading of \<open>Date.now()\<close>.
\<close>

theorem icon_path_marker:
  "icon_path dark st False n1 = icon_path dark st False n2
   \<and> (icon_path dark st True n1 = icon_path dark st True n2 \<longleftrightarrow> n1 = n2)"
  by (simp add: icon_path_settled icon_path_transition_eq)

subsection \<open>Theme detection and titles\<close>

lemma getAll_without_theme:
  assumes "filter (\<lambda>ext. ext_type ext = ''theme'' \<and> enabled ext) extensions = []"
  shows "management_getAll_then extensions s = Inl TypeError"
    and "dispatch (GetAllResolved extensions) s = s"
  using assms by (simp_all add: management_getAll_then_def dispatch_def)

lemma getAll_with_theme:
  assumes "filter (\<lambda>ext. ext_type ext = ''theme'' \<and> enabled ext) extensions = th # rest"
  shows "management_getAll_then extensions s =
           Inr (emit TabsQuery (s\<lparr>is_theme_dark := ext_id th \<in> set dark_theme_ids\<rparr>))"
  using assms by (simp add: management_getAll_then_def update_all_page_action_icons_def)

text \<open>
  C8, at the failing input. With no enabled theme in the list, the continuation of
  \<open>management.getAll\<close> throws a \<open>TypeError\<close>; the flag is still \<open>False\<close>
  afterwards, and no refresh of the icons has been requested.
\<close>

theorem no_enabled_theme_throws:
  "management_getAll_then
     [\<lparr>ext_id = ''reloader@example.org'', ext_type = ''extension'', enabled = True\<rparr>,
      \<lparr>ext_id = ''firefox-compact-dark@mozilla.org@personas.mozilla.org'',
        ext_type = ''theme'', enabled = False\<rparr>]
     (initial_state 0) = Inl TypeError
   \<and> dispatch (GetAllResolved
       [\<lparr>ext_id = ''reloader@example.org'', ext_type = ''extension'', enabled = True\<rparr>,
        \<lparr>ext_id = ''firefox-compact-dark@mozilla.org@personas.mozilla.org'',
          ext_type = ''theme'', enabled = False\<rparr>])
       (initial_state 0) = initial_state 0
   \<and> \<not> is_theme_dark (initial_state 0)"
  by (simp add: management_getAll_then_def dispatch_def initial_state_def)

text \<open>
  C9, counterexample. Before the platform information has resolved, the title update of
  a tab that is not loading passes the undefined idle title to both surfaces.
\<close>

theorem idle_title_undefined_counterexample:
  "map snd (emitted (initial_state 0)
     (update_page_action \<lparr>tab_id = 1, status = ''complete''\<rparr> (initial_state 0))) =
     [PageActionShow 1, PageActionSetTitle 1 None, BrowserActionSetTitle 1 None]"
  by (simp add: emitted_append [OF title_effects] initial_state_def)

text \<open>
  C9, as amended. The title update has no guard: it shows the action and passes, to
  both surfaces, the busy title when the status is \<open>loading\<close> and otherwise the current
  value of \<open>page_action_title_idle\<close>, which is undefined when the script has loaded and
  defined once the platform information has resolved.
\<close>

theorem title_update_unguarded:
  "map snd (emitted s (update_page_action tab s)) =
     (let title = (if status tab = ''loading'' then Some page_action_title_busy
                   else page_action_title_idle s)
      in [PageActionShow (tab_id tab), PageActionSetTitle (tab_id tab) title,
          BrowserActionSetTitle (tab_id tab) title])
   \<and> page_action_title_idle (initial_state c) = None
   \<and> page_action_title_idle (getPlatformInfo_then os s) \<noteq> None"
  by (simp add: emitted_append [OF title_effects] initial_state_def getPlatformInfo_then_def
      Let_def)

subsection \<open>Theme changes\<close>

lemma refresh_fields:
  "is_theme_dark (update_all_page_action_icons_then tabs s) = is_theme_dark s"
  "clock (update_all_page_action_icons_then tabs s) = clock s"
  "page_action_title_idle (update_all_page_action_icons_then tabs s) = page_action_title_idle s"
  "navigation_timestamp (update_all_page_action_icons_then tabs s) = navigation_timestamp s"
  by (induction tabs arbitrary: s)
     (simp_all add: update_all_page_action_icons_then_def icon_unchanged)

lemma refresh_effects:
  "effects (update_all_page_action_icons_then tabs s) =
     effects s @
     concat (map (\<lambda>tab.
       [(clock s, PageActionSetIcon (tab_id tab)
                    (icon_path (is_theme_dark s) (status tab) True (clock s))),
        (clock s, BrowserActionSetIcon (tab_id tab)
                    (icon_path (is_theme_dark s) (status tab) True (clock s)))]) tabs)"
  by (induction tabs arbitrary: s)
     (simp_all add: update_all_page_action_icons_then_def icon_unchanged icon_effects)

text \<open>
  C6. A theme-enabled event (an event whose type is \<open>theme\<close>) sets the dark-theme flag
  from the identifier and issues the query for all tabs; when that query resolves, in
  whatever state \<open>s'\<close> the script is by then, every tab of the answer has its icon
  applied anew on both surfaces, for the theme flag of that moment.
\<close>

theorem theme_change_refreshes_every_tab:
  "ext_type info = ''theme'' \<Longrightarrow>
     is_theme_dark (management_onEnabled info s) = (ext_id info \<in> set dark_theme_ids)
   \<and> emitted s (management_onEnabled info s) = [(clock s, TabsQuery)]
   \<and> (\<forall>tab \<in> set tabs.
        (clock s', PageActionSetIcon (tab_id tab)
                     (icon_path (is_theme_dark s') (status tab) True (clock s')))
          \<in> set (emitted s' (update_all_page_action_icons_then tabs s'))
      \<and> (clock s', BrowserActionSetIcon (tab_id tab)
                     (icon_path (is_theme_dark s') (status tab) True (clock s')))
          \<in> set (emitted s' (update_all_page_action_icons_then tabs s')))"
  by (auto simp: management_onEnabled_def update_all_page_action_icons_def emit_fields
      emitted_def refresh_effects)

theorem theme_change_refreshes_every_tab_witness:
  "ext_type \<lparr>ext_id = ''firefox-compact-dark@mozilla.org@personas.mozilla.org'',
        ext_type = ''theme'', enabled = True\<rparr> = ''theme''
   \<and> is_theme_dark (management_onEnabled
      \<lparr>ext_id = ''firefox-compact-dark@mozilla.org@personas.mozilla.org'',
        ext_type = ''theme'', enabled = True\<rparr> (initial_state 0))
   \<and> (0, PageActionSetIcon 2 ''data/reload_to_stop_dark.svg?t=0'')
       \<in> set (emitted
            (management_onEnabled
               \<lparr>ext_id = ''firefox-compact-dark@mozilla.org@personas.mozilla.org'',
                 ext_type = ''theme'', enabled = True\<rparr> (initial_state 0))
            (update_all_page_action_icons_then
              [\<lparr>tab_id = 1, status = ''loading''\<rparr>, \<lparr>tab_id = 2, status = ''complete''\<rparr>]
              (management_onEnabled
                 \<lparr>ext_id = ''firefox-compact-dark@mozilla.org@personas.mozilla.org'',
                   ext_type = ''theme'', enabled = True\<rparr> (initial_state 0))))"
  using theme_change_refreshes_every_tab
    [of "\<lparr>ext_id = ''firefox-compact-dark@mozilla.org@personas.mozilla.org'',
           ext_type = ''theme'', enabled = True\<rparr>"
        "initial_state 0"
        "[\<lparr>tab_id = 1, status = ''loading''\<rparr>, \<lparr>tab_id = 2, status = ''complete''\<rparr>]"
        "management_onEnabled
               \<lparr>ext_id = ''firefox-compact-dark@mozilla.org@personas.mozilla.org'',
                 ext_type = ''theme'', enabled = True\<rparr> (initial_state 0)"]
  by (simp add: dark_theme_ids_def icon_path_transition number_to_string_0
      management_onEnabled_def update_all_page_action_icons_def emit_def initial_state_def)

subsection \<open>Tab listeners\<close>

text \<open>
  C5, counterexample. The \<open>updated\<close> listener applies no icon and sets no timer, and
  the enumeration at startup applies the transition asset and sets the settle timer.
\<close>

theorem updated_and_startup_counterexample:
  "map snd (emitted (initial_state 0)
      (tabs_onUpdated \<lparr>tab_id = 1, status = ''loading''\<rparr> (initial_state 0))) =
     [PageActionShow 1, PageActionSetTitle 1 (Some page_action_title_busy),
      BrowserActionSetTitle 1 (Some page_action_title_busy)]
   \<and> timers (tabs_onUpdated \<lparr>tab_id = 1, status = ''loading''\<rparr> (initial_state 0)) = []
   \<and> map snd (emitted (initial_state 0)
      (startup_query_then [\<lparr>tab_id = 1, status = ''loading''\<rparr>] (initial_state 0))) =
     [PageActionShow 1, PageActionSetTitle 1 (Some page_action_title_busy),
      BrowserActionSetTitle 1 (Some page_action_title_busy),
      PageActionSetIcon 1 ''data/stop_to_reload_light.svg?t=0'',
      BrowserActionSetIcon 1 ''data/stop_to_reload_light.svg?t=0'']
   \<and> timers (startup_query_then [\<lparr>tab_id = 1, status = ''loading''\<rparr>] (initial_state 0)) =
     [\<lparr>timer_handle = 1, timer_due = 417,
       timer_tab = \<lparr>tab_id = 1, status = ''loading''\<rparr>\<rparr>]"
  by (simp add: emitted_def tabs_onUpdated_def startup_query_then_def title_effects
      title_fields icon_effects icon_timers icon_path_transition number_to_string_0
      initial_state_def)

text \<open>
  C5, as amended. On creation the action is shown, the title is set (the busy title when
  the status is \<open>loading\<close>, otherwise the current idle title) and the animated icon
  update is made, which schedules the settle timer. On \<open>updated\<close> the action is shown
  and the title is set, and nothing else: no icon is applied and the timers are left as
  they are. The enumeration at startup does for each tab what creation does, animated
  icon update included.
\<close>

theorem tab_listeners:
  "map snd (emitted s (tabs_onCreated tab s)) =
     (let title = (if status tab = ''loading'' then Some page_action_title_busy
                   else page_action_title_idle s);
          path = icon_path (is_theme_dark s) (status tab) True (clock s)
      in [PageActionShow (tab_id tab), PageActionSetTitle (tab_id tab) title,
          BrowserActionSetTitle (tab_id tab) title,
          PageActionSetIcon (tab_id tab) path, BrowserActionSetIcon (tab_id tab) path])
   \<and> last (timers (tabs_onCreated tab s)) =
       \<lparr>timer_handle = next_handle s, timer_due = clock s + 417, timer_tab = tab\<rparr>
   \<and> map snd (emitted s (tabs_onUpdated tab s)) =
     (let title = (if status tab = ''loading'' then Some page_action_title_busy
                   else page_action_title_idle s)
      in [PageActionShow (tab_id tab), PageActionSetTitle (tab_id tab) title,
          BrowserActionSetTitle (tab_id tab) title])
   \<and> timers (tabs_onUpdated tab s) = timers s
   \<and> animation_timeouts (tabs_onUpdated tab s) = animation_timeouts s
   \<and> startup_query_then tabs s = foldl (\<lambda>s' tab. tabs_onCreated tab s') s tabs"
  by (simp add: emitted_def tabs_onCreated_def tabs_onUpdated_def startup_query_then_def
      title_effects title_fields icon_effects icon_timers Let_def)

subsection \<open>Navigation debouncing\<close>

lemma startup_fields:
  "is_theme_dark (startup_query_then tabs s) = is_theme_dark s"
  "clock (startup_query_then tabs s) = clock s"
  "page_action_title_idle (startup_query_then tabs s) = page_action_title_idle s"
  "navigation_timestamp (startup_query_then tabs s) = navigation_timestamp s"
  by (induction tabs arbitrary: s)
     (simp_all add: startup_query_then_def icon_unchanged title_fields)

lemma callback_stamps:
  "navigation_timestamp (timeout_callback tab s) = navigation_timestamp s"
  by (simp add: timeout_callback_def Let_def icon_unchanged)

lemma timer_fires_stamps:
  "navigation_timestamp (timer_fires h s) = navigation_timestamp s"
  by (simp add: timer_fires_def callback_stamps split: option.splits)

lemma dispatch_stamps:
  "navigation_timestamp (dispatch ev s) k =
     (case navigation_of k (Host ev) of
        Some d \<Rightarrow> Some (timeStamp d)
      | None \<Rightarrow> navigation_timestamp s k)"
proof (cases ev)
  case (Navigation d fetched)
  then show ?thesis
    by (cases fetched)
       (simp_all add: dispatch_def on_navigation_def on_navigation_then_def Let_def
          icon_unchanged title_fields)
qed (simp_all add: dispatch_def management_getAll_then_def management_onEnabled_def
      update_all_page_action_icons_def emit_fields getPlatformInfo_then_def refresh_fields
      startup_fields tabs_onCreated_def tabs_onUpdated_def icon_unchanged title_fields
      split: list.splits)

lemma step_stamps:
  "navigation_timestamp (step a s) k =
     (case navigation_of k a of
        Some d \<Rightarrow> Some (timeStamp d)
      | None \<Rightarrow> navigation_timestamp s k)"
  by (cases a) (simp_all add: dispatch_stamps timer_fires_stamps advance_clock_def)

lemma should_animate_spec:
  "tabId d = k \<Longrightarrow>
   should_animate m d = shouldAnimate (m k) (timeStamp d)"
  by (simp add: should_animate_def shouldAnimate_def split: option.splits)

lemma navigation_of_tab: "navigation_of k a = Some d \<Longrightarrow> tabId d = k"
  by (induction k a rule: navigation_of.induct) (simp_all split: if_splits)

lemma navigation_job:
  assumes "frameId d = 0"
  shows "map snd (emitted s (on_navigation d (Some tab) s)) =
           [PageActionShow (tab_id tab),
            PageActionSetTitle (tab_id tab)
              (if status tab = ''loading'' then Some page_action_title_busy
               else page_action_title_idle s),
            BrowserActionSetTitle (tab_id tab)
              (if status tab = ''loading'' then Some page_action_title_busy
               else page_action_title_idle s),
            PageActionSetIcon (tab_id tab)
              (icon_path (is_theme_dark s) (status tab)
                 (should_animate (navigation_timestamp s) d) (clock s)),
            BrowserActionSetIcon (tab_id tab)
              (icon_path (is_theme_dark s) (status tab)
                 (should_animate (navigation_timestamp s) d) (clock s))]"
    and "scheduled s (on_navigation d (Some tab) s) =
           should_animate (navigation_timestamp s) d"
    and "navigation_timestamp (on_navigation d (Some tab) s) (tabId d) = Some (timeStamp d)"
  using assms
  by (simp_all add: on_navigation_def on_navigation_then_def Let_def emitted_def icon_effects
      icon_next_handle icon_unchanged title_effects title_fields scheduled_def)

lemma navigation_of_job:
  assumes "navigation_of k a = Some d"
  shows "scheduled s (step a s) = should_animate (navigation_timestamp s) d"
proof -
  from assms obtain tab where a: "a = Host (Navigation d (Some tab))" and top: "frameId d = 0"
    by (induction k a rule: navigation_of.induct) (simp_all split: if_splits)
  from navigation_job(2) [OF top] a show ?thesis
    by (simp add: dispatch_def)
qed

lemma decisions_debounce:
  "decisions k as s = debounce (navigation_timestamp s k) (stamps k as)"
proof (induction as arbitrary: s)
  case Nil
  show ?case by (simp add: stamps_def map_filter_simps)
next
  case (Cons a as)
  show ?case
  proof (cases "navigation_of k a")
    case None
    with Cons show ?thesis
      by (simp add: stamps_def map_filter_simps step_stamps)
  next
    case (Some d)
    with Cons show ?thesis
      by (simp add: stamps_def map_filter_simps step_stamps navigation_of_job [OF Some]
          should_animate_spec [OF navigation_of_tab [OF Some]])
  qed
qed

lemma exec_stamps:
  "navigation_timestamp (exec as s) k =
     (if stamps k as = [] then navigation_timestamp s k else Some (last (stamps k as)))"
proof (induction as arbitrary: s)
  case Nil
  show ?case by (simp add: stamps_def map_filter_simps)
next
  case (Cons a as)
  show ?case
  proof (cases "navigation_of k a")
    case None
    with Cons show ?thesis
      by (simp add: stamps_def map_filter_simps step_stamps)
  next
    case (Some d)
    with Cons show ?thesis
      by (simp add: stamps_def map_filter_simps step_stamps)
  qed
qed

lemma debounce_length: "length (debounce prior ts) = length ts"
  by (induction ts arbitrary: prior) simp_all

lemma debounce_nth:
  "i < length ts \<Longrightarrow>
   debounce prior ts ! i =
     (case i of 0 \<Rightarrow> shouldAnimate prior (ts ! 0)
      | Suc j \<Rightarrow> ts ! Suc j - ts ! j \<ge> 417)"
proof (induction ts arbitrary: prior i)
  case Nil
  then show ?case by simp
next
  case (Cons t ts)
  show ?case
  proof (cases i)
    case 0
    then show ?thesis by simp
  next
    case (Suc j)
    with Cons.prems have j: "j < length ts" by simp
    show ?thesis
    proof (cases j)
      case 0
      with Suc j Cons.IH [OF j, of "Some t"] show ?thesis
        by (simp add: shouldAnimate_def)
    next
      case (Suc j')
      with \<open>i = Suc j\<close> j Cons.IH [OF j, of "Some t"] show ?thesis by simp
    qed
  qed
qed

text \<open>
  C1, counterexample. Two top-level navigations of tab 7, at 0 and at 100, where the tab
  lookup of the first one rejects. The first makes no decision and its timestamp is not
  recorded; the second, only 100 after the first, finds no recorded timestamp and makes
  the animated update: it applies the transition asset and sets the settle timer.
\<close>

theorem rejected_lookup_counterexample:
  "exec [Host (Navigation \<lparr>frameId = 0, tabId = 7, timeStamp = 0\<rparr> None)] (initial_state 0) =
     initial_state 0
   \<and> navigation_timestamp
       (exec [Host (Navigation \<lparr>frameId = 0, tabId = 7, timeStamp = 0\<rparr> None)]
          (initial_state 0)) 7 = None
   \<and> map snd (effects
       (exec [Host (Navigation \<lparr>frameId = 0, tabId = 7, timeStamp = 0\<rparr> None),
              Host (Navigation \<lparr>frameId = 0, tabId = 7, timeStamp = 100\<rparr>
                      (Some \<lparr>tab_id = 7, status = ''loading''\<rparr>))]
          (initial_state 0))) =
       [PageActionShow 7, PageActionSetTitle 7 (Some page_action_title_busy),
        BrowserActionSetTitle 7 (Some page_action_title_busy),
        PageActionSetIcon 7 ''data/stop_to_reload_light.svg?t=0'',
        BrowserActionSetIcon 7 ''data/stop_to_reload_light.svg?t=0'']
   \<and> timers
       (exec [Host (Navigation \<lparr>frameId = 0, tabId = 7, timeStamp = 0\<rparr> None),
              Host (Navigation \<lparr>frameId = 0, tabId = 7, timeStamp = 100\<rparr>
                      (Some \<lparr>tab_id = 7, status = ''loading''\<rparr>))]
          (initial_state 0)) =
       [\<lparr>timer_handle = 1, timer_due = 417,
         timer_tab = \<lparr>tab_id = 7, status = ''loading''\<rparr>\<rparr>]"
  by (simp add: dispatch_def on_navigation_def on_navigation_then_def Let_def
      should_animate_def icon_effects icon_timers title_effects title_fields
      icon_path_transition number_to_string_0 initial_state_def)

text \<open>
  C1, as amended. In any run from the loaded script, with whatever other jobs in
  between, take the top-level navigations of tab \<open>k\<close> whose tab lookup resolves, with
  timestamps \<open>stamps k as\<close>. Each of them makes one icon update; the update at the
  first is the animated one (no timestamp is recorded for the tab before it); the
  update at a later one is the animated one exactly when its timestamp is at least 417
  after the timestamp of the one before, and the still one otherwise; and after the run
  the timestamp recorded for the tab is that of the last of them, whatever the updates
  were. Since every prefix of a run is a run, this is so after each navigation; the
  timestamps need not even increase. The job of such a navigation shows the action,
  sets the title and applies on both surfaces the transition asset when it sets the
  settle timer and the still icon when it does not, and records the timestamp. A
  navigation whose tab lookup rejects does nothing: no update is made and no timestamp
  is recorded.
\<close>

theorem navigation_debounce:
  assumes "i < length (stamps k as)"
  shows "length (decisions k as (initial_state c)) = length (stamps k as)
       \<and> (decisions k as (initial_state c) ! i \<longleftrightarrow>
            i = 0 \<or> stamps k as ! i - stamps k as ! (i - 1) \<ge> 417)
       \<and> navigation_timestamp (exec as (initial_state c)) k = Some (last (stamps k as))
       \<and> (\<forall>s d tab. frameId d = 0 \<longrightarrow>
            map snd (emitted s (on_navigation d (Some tab) s)) =
              [PageActionShow (tab_id tab),
               PageActionSetTitle (tab_id tab)
                 (if status tab = ''loading'' then Some page_action_title_busy
                  else page_action_title_idle s),
               BrowserActionSetTitle (tab_id tab)
                 (if status tab = ''loading'' then Some page_action_title_busy
                  else page_action_title_idle s),
               PageActionSetIcon (tab_id tab)
                 (icon_path (is_theme_dark s) (status tab)
                    (scheduled s (on_navigation d (Some tab) s)) (clock s)),
               BrowserActionSetIcon (tab_id tab)
                 (icon_path (is_theme_dark s) (status tab)
                    (scheduled s (on_navigation d (Some tab) s)) (clock s))]
            \<and> navigation_timestamp (on_navigation d (Some tab) s) (tabId d) =
                Some (timeStamp d))
       \<and> (\<forall>s d. on_navigation d None s = s)"
proof -
  have none: "navigation_timestamp (initial_state c) k = None"
    by (simp add: initial_state_def)
  have "decisions k as (initial_state c) ! i =
          (case i of 0 \<Rightarrow> shouldAnimate None (stamps k as ! 0)
           | Suc j \<Rightarrow> stamps k as ! Suc j - stamps k as ! j \<ge> 417)"
    using assms by (simp add: decisions_debounce none debounce_nth)
  then have "decisions k as (initial_state c) ! i \<longleftrightarrow>
          i = 0 \<or> stamps k as ! i - stamps k as ! (i - 1) \<ge> 417"
    by (cases i) (simp_all add: shouldAnimate_def)
  moreover have "length (decisions k as (initial_state c)) = length (stamps k as)"
    by (simp add: decisions_debounce debounce_length)
  moreover have "navigation_timestamp (exec as (initial_state c)) k =
          Some (last (stamps k as))"
    using assms by (auto simp: exec_stamps)
  moreover have "on_navigation d None s = s" for d s
    by (simp add: on_navigation_def)
  ultimately show ?thesis
    by (simp add: navigation_job)
qed

theorem navigation_debounce_witness:
  "1 < length (stamps 7
       [Host (Navigation \<lparr>frameId = 0, tabId = 7, timeStamp = 0\<rparr>
                (Some \<lparr>tab_id = 7, status = ''loading''\<rparr>)),
        Host (Navigation \<lparr>frameId = 0, tabId = 7, timeStamp = 100\<rparr>
                (Some \<lparr>tab_id = 7, status = ''loading''\<rparr>)),
        Host (Navigation \<lparr>frameId = 0, tabId = 7, timeStamp = 600\<rparr>
                (Some \<lparr>tab_id = 7, status = ''complete''\<rparr>))])
   \<and> \<not> decisions 7
       [Host (Navigation \<lparr>frameId = 0, tabId = 7, timeStamp = 0\<rparr>
                (Some \<lparr>tab_id = 7, status = ''loading''\<rparr>)),
        Host (Navigation \<lparr>frameId = 0, tabId = 7, timeStamp = 100\<rparr>
                (Some \<lparr>tab_id = 7, status = ''loading''\<rparr>)),
        Host (Navigation \<lparr>frameId = 0, tabId = 7, timeStamp = 600\<rparr>
                (Some \<lparr>tab_id = 7, status = ''complete''\<rparr>))]
       (initial_state 0) ! 1
   \<and> navigation_timestamp (exec
       [Host (Navigation \<lparr>frameId = 0, tabId = 7, timeStamp = 0\<rparr>
                (Some \<lparr>tab_id = 7, status = ''loading''\<rparr>)),
        Host (Navigation \<lparr>frameId = 0, tabId = 7, timeStamp = 100\<rparr>
                (Some \<lparr>tab_id = 7, status = ''loading''\<rparr>)),
        Host (Navigation \<lparr>frameId = 0, tabId = 7, timeStamp = 600\<rparr>
                (Some \<lparr>tab_id = 7, status = ''complete''\<rparr>))]
       (initial_state 0)) 7 = Some 600"
proof -
  let ?run = "[Host (Navigation \<lparr>frameId = 0, tabId = 7, timeStamp = 0\<rparr>
                (Some \<lparr>tab_id = 7, status = ''loading''\<rparr>)),
        Host (Navigation \<lparr>frameId = 0, tabId = 7, timeStamp = 100\<rparr>
                (Some \<lparr>tab_id = 7, status = ''loading''\<rparr>)),
        Host (Navigation \<lparr>frameId = 0, tabId = 7, timeStamp = 600\<rparr>
                (Some \<lparr>tab_id = 7, status = ''complete''\<rparr>))]"
  have ts: "stamps 7 ?run = [0, 100, 600]"
    by (simp add: stamps_def map_filter_simps)
  have len: "1 < length (stamps 7 ?run)"
    by (simp add: ts)
  from navigation_debounce [OF len, of 0] show ?thesis
    by (simp only: ts) simp
qed

subsection \<open>The timer bookkeeping\<close>

lemma bookkeeping_cong:
  "timers s' = timers s \<Longrightarrow> animation_timeouts s' = animation_timeouts s \<Longrightarrow>
   next_handle s' = next_handle s \<Longrightarrow> bookkeeping s' = bookkeeping s"
  by (simp add: bookkeeping_def timers_tracked_def handles_fresh_def handles_owned_def)

lemma bookkeeping_initial: "bookkeeping (initial_state c)"
  by (simp add: bookkeeping_def timers_tracked_def handles_fresh_def handles_owned_def
      initial_state_def)

lemma bookkeeping_drop:
  "bookkeeping s \<Longrightarrow> bookkeeping (s\<lparr>timers := filter P (timers s)\<rparr>)"
  by (auto simp: bookkeeping_def timers_tracked_def handles_fresh_def handles_owned_def
      list_all_iff distinct_map_filter)

lemma bookkeeping_icon:
  assumes "bookkeeping s"
  shows "bookkeeping (update_page_action_icon tab a s)"
proof -
  from assms have tracked: "\<And>t. t \<in> set (timers s) \<Longrightarrow>
      animation_timeouts s (tab_id (timer_tab t)) = Some (timer_handle t)"
    and dist: "distinct (map timer_handle (timers s))"
    and below: "\<And>t. t \<in> set (timers s) \<Longrightarrow> timer_handle t < next_handle s"
    and held: "\<And>k h. animation_timeouts s k = Some h \<Longrightarrow> h < next_handle s"
    and owned: "\<And>t k. t \<in> set (timers s) \<Longrightarrow>
      animation_timeouts s k = Some (timer_handle t) \<Longrightarrow> k = tab_id (timer_tab t)"
    by (auto simp: bookkeeping_def timers_tracked_def handles_fresh_def handles_owned_def
        list_all_iff)
  have other: "tab_id (timer_tab t) \<noteq> tab_id tab"
    if "t \<in> set (timers s)" and "animation_timeouts s (tab_id tab) \<noteq> Some (timer_handle t)"
    for t
    using tracked [OF that(1)] that(2) by auto
  have "timers_tracked (update_page_action_icon tab a s)"
    using tracked other
    by (auto simp: timers_tracked_def list_all_iff icon_timers icon_timeouts
        split: option.splits)
  moreover have "handles_fresh (update_page_action_icon tab a s)"
    using dist below held
    by (fastforce simp: handles_fresh_def list_all_iff icon_timers icon_timeouts
        icon_next_handle distinct_map_filter less_Suc_eq split: option.splits if_splits)
  moreover have "handles_owned (update_page_action_icon tab a s)"
    using owned below held
    by (fastforce simp: handles_owned_def icon_timers icon_timeouts
        split: option.splits if_splits)
  ultimately show ?thesis by (simp add: bookkeeping_def)
qed


lemma bookkeeping_title: "bookkeeping (update_page_action tab s) = bookkeeping s"
  by (rule bookkeeping_cong) (simp_all add: title_fields)

lemma icon_clears_own:
  assumes "bookkeeping s"
  shows "timers_of (tab_id tab) (update_page_action_icon tab False s) = []"
proof -
  from assms have tracked: "\<And>t. t \<in> set (timers s) \<Longrightarrow>
      animation_timeouts s (tab_id (timer_tab t)) = Some (timer_handle t)"
    by (auto simp: bookkeeping_def timers_tracked_def list_all_iff)
  have "\<not> (tab_id (timer_tab t) = tab_id tab)"
    if "t \<in> set (timers (update_page_action_icon tab False s))" for t
    using that tracked [of t] by (auto simp: icon_timers split: option.splits)
  then show ?thesis
    by (simp add: timers_of_def filter_empty_conv)
qed

lemma bookkeeping_delete:
  assumes "bookkeeping s" and "timers_of k s = []"
  shows "bookkeeping (s\<lparr>animation_timeouts := (animation_timeouts s)(k := None)\<rparr>)"
proof -
  from assms(2) have "\<And>t. t \<in> set (timers s) \<Longrightarrow> tab_id (timer_tab t) \<noteq> k"
    by (simp add: timers_of_def filter_empty_conv)
  with assms(1) show ?thesis
    by (auto simp: bookkeeping_def timers_tracked_def handles_fresh_def handles_owned_def
        list_all_iff)
qed

lemma bookkeeping_callback:
  "bookkeeping s \<Longrightarrow> bookkeeping (timeout_callback tab s)"
  unfolding timeout_callback_def Let_def
  by (rule bookkeeping_delete) (simp_all add: bookkeeping_icon icon_clears_own)

lemma bookkeeping_timer_fires:
  "bookkeeping s \<Longrightarrow> bookkeeping (timer_fires h s)"
  by (simp add: timer_fires_def bookkeeping_callback bookkeeping_drop split: option.splits)

lemma bookkeeping_advance: "bookkeeping (advance_clock t s) = bookkeeping s"
  by (rule bookkeeping_cong) (simp_all add: advance_clock_def)

lemma bookkeeping_refresh:
  "bookkeeping s \<Longrightarrow> bookkeeping (update_all_page_action_icons_then tabs s)"
  by (induction tabs arbitrary: s)
     (simp_all add: update_all_page_action_icons_then_def bookkeeping_icon)

lemma bookkeeping_startup:
  "bookkeeping s \<Longrightarrow> bookkeeping (startup_query_then tabs s)"
  by (induction tabs arbitrary: s)
     (simp_all add: startup_query_then_def bookkeeping_icon bookkeeping_title)

lemma bookkeeping_theme:
  "bookkeeping (update_all_page_action_icons (s\<lparr>is_theme_dark := b\<rparr>)) = bookkeeping s"
  by (rule bookkeeping_cong) (simp_all add: update_all_page_action_icons_def emit_fields)

lemma bookkeeping_dispatch:
  assumes "bookkeeping s"
  shows "bookkeeping (dispatch ev s)"
proof (cases ev)
  case (GetAllResolved extensions)
  with assms show ?thesis
    by (simp add: dispatch_def management_getAll_then_def bookkeeping_theme
        split: list.splits)
next
  case (ThemeEnabled info)
  with assms show ?thesis
    by (simp add: dispatch_def management_onEnabled_def bookkeeping_theme)
next
  case (PlatformInfoResolved os)
  have "bookkeeping (getPlatformInfo_then os s) = bookkeeping s"
    by (rule bookkeeping_cong) (simp_all add: getPlatformInfo_then_def)
  with assms PlatformInfoResolved show ?thesis by (simp add: dispatch_def)
next
  case (RefreshQueryResolved tabs)
  with assms show ?thesis by (simp add: dispatch_def bookkeeping_refresh)
next
  case (StartupQueryResolved tabs)
  with assms show ?thesis by (simp add: dispatch_def bookkeeping_startup)
next
  case (TabCreated tab)
  with assms show ?thesis
    by (simp add: dispatch_def tabs_onCreated_def bookkeeping_icon bookkeeping_title)
next
  case (TabUpdated tab)
  with assms show ?thesis by (simp add: dispatch_def tabs_onUpdated_def bookkeeping_title)
next
  case (Navigation d fetched)
  have "bookkeeping (on_navigation_then d tab s)" for tab
  proof -
    have "bookkeeping (on_navigation_then d tab s) =
          bookkeeping (update_page_action_icon tab (should_animate (navigation_timestamp s) d)
                         (update_page_action tab s))"
      by (rule bookkeeping_cong) (simp_all add: on_navigation_then_def Let_def)
    with assms show ?thesis by (simp add: bookkeeping_icon bookkeeping_title)
  qed
  with assms Navigation show ?thesis
    by (simp add: dispatch_def on_navigation_def split: option.splits)
qed

lemma bookkeeping_step: "bookkeeping s \<Longrightarrow> bookkeeping (step a s)"
  by (cases a) (simp_all add: bookkeeping_dispatch bookkeeping_timer_fires bookkeeping_advance)

lemma bookkeeping_exec: "bookkeeping s \<Longrightarrow> bookkeeping (exec as s)"
  by (induction as arbitrary: s) (simp_all add: bookkeeping_step)

lemma one_per_key:
  assumes "distinct (map f xs)" and "\<And>x y. x \<in> set xs \<Longrightarrow> y \<in> set xs \<Longrightarrow> f x = f y"
  shows "length xs \<le> 1"
proof (cases xs)
  case Nil
  then show ?thesis by simp
next
  case outer: (Cons x xs')
  show ?thesis
  proof (cases xs')
    case Nil
    with outer show ?thesis by simp
  next
    case (Cons y ys)
    with outer assms(1) assms(2) [of x y] show ?thesis by simp
  qed
qed

lemma at_most_one_timer:
  assumes "bookkeeping s"
  shows "length (timers_of k s) \<le> 1"
proof (rule one_per_key [where f = timer_handle])
  from assms have "distinct (map timer_handle (timers s))"
    by (simp add: bookkeeping_def handles_fresh_def)
  then show "distinct (map timer_handle (timers_of k s))"
    by (simp add: timers_of_def distinct_map_filter)
next
  fix t t'
  assume t: "t \<in> set (timers_of k s)" and t': "t' \<in> set (timers_of k s)"
  from assms have tracked: "\<forall>t \<in> set (timers s).
      animation_timeouts s (tab_id (timer_tab t)) = Some (timer_handle t)"
    by (simp add: bookkeeping_def timers_tracked_def list_all_iff)
  from t have "t \<in> set (timers s)" and "tab_id (timer_tab t) = k"
    by (simp_all add: timers_of_def)
  with tracked have 1: "animation_timeouts s k = Some (timer_handle t)"
    by blast
  from t' have "t' \<in> set (timers s)" and "tab_id (timer_tab t') = k"
    by (simp_all add: timers_of_def)
  with tracked have 2: "animation_timeouts s k = Some (timer_handle t')"
    by blast
  from 1 2 show "timer_handle t = timer_handle t'"
    by (metis option.inject)
qed

lemma tracked_at:
  assumes "bookkeeping s" and "t \<in> set (timers s)" and "tab_id (timer_tab t) = k"
  shows "animation_timeouts s k = Some (timer_handle t)"
proof -
  from assms(1) have "\<forall>t \<in> set (timers s).
      animation_timeouts s (tab_id (timer_tab t)) = Some (timer_handle t)"
    by (simp add: bookkeeping_def timers_tracked_def list_all_iff)
  with assms(2,3) show ?thesis by blast
qed

lemma survivors_other:
  assumes "bookkeeping s"
    and "t \<in> set (case animation_timeouts s k of
                     Some h \<Rightarrow> filter (\<lambda>t. timer_handle t \<noteq> h) (timers s)
                   | None \<Rightarrow> timers s)"
  shows "tab_id (timer_tab t) \<noteq> k"
proof
  assume k: "tab_id (timer_tab t) = k"
  from assms(2) have "t \<in> set (timers s)"
    by (simp split: option.splits)
  from tracked_at [OF assms(1) this k] assms(2) show False
    by simp
qed

lemma animated_sets_one_timer:
  assumes "bookkeeping s"
  shows "timers_of (tab_id tab) (update_page_action_icon tab True s) =
           [\<lparr>timer_handle = next_handle s, timer_due = clock s + 417, timer_tab = tab\<rparr>]"
proof -
  have "filter (\<lambda>t. tab_id (timer_tab t) = tab_id tab)
          (case animation_timeouts s (tab_id tab) of
             Some h \<Rightarrow> filter (\<lambda>t. timer_handle t \<noteq> h) (timers s)
           | None \<Rightarrow> timers s) = []"
    unfolding filter_empty_conv using survivors_other [OF assms] by blast
  then show ?thesis by (simp add: timers_of_def icon_timers)
qed

text \<open>
  C2. After any sequence of jobs, timer firings and clock movements from the loaded
  script, at most one settle timer is pending for any tab id; and two animated updates
  in immediate succession for one tab leave exactly one timer pending for that tab, the
  one the second update scheduled, the first one's having been cancelled.
\<close>

theorem one_settle_timer_per_tab:
  "length (timers_of k (exec as (initial_state c))) \<le> 1
   \<and> timers_of (tab_id tab)
       (update_page_action_icon tab True
          (update_page_action_icon tab True (exec as (initial_state c)))) =
       [\<lparr>timer_handle = Suc (next_handle (exec as (initial_state c))),
         timer_due = clock (exec as (initial_state c)) + 417, timer_tab = tab\<rparr>]"
proof -
  have b: "bookkeeping (exec as (initial_state c))"
    by (simp add: bookkeeping_exec bookkeeping_initial)
  from animated_sets_one_timer [OF bookkeeping_icon [OF b], of tab tab True]
    at_most_one_timer [OF b, of k]
  show ?thesis
    by (simp add: icon_next_handle icon_unchanged)
qed

subsection \<open>Stale entries of the timer map\<close>

lemma entry_kept_icon:
  "animation_timeouts s k = Some h \<Longrightarrow>
   animation_timeouts (update_page_action_icon tab a s) k \<noteq> None"
  by (simp add: icon_timeouts)

lemma entry_kept_refresh:
  "animation_timeouts s k \<noteq> None \<Longrightarrow>
   animation_timeouts (update_all_page_action_icons_then tabs s) k \<noteq> None"
  by (induction tabs arbitrary: s)
     (simp_all add: update_all_page_action_icons_then_def icon_timeouts)

lemma entry_kept_startup:
  "animation_timeouts s k \<noteq> None \<Longrightarrow>
   animation_timeouts (startup_query_then tabs s) k \<noteq> None"
  by (induction tabs arbitrary: s)
     (simp_all add: startup_query_then_def icon_timeouts title_fields)

lemma entry_kept_dispatch:
  assumes "animation_timeouts s k \<noteq> None"
  shows "animation_timeouts (dispatch ev s) k \<noteq> None"
proof (cases ev)
  case (Navigation d fetched)
  with assms show ?thesis
    by (simp add: dispatch_def on_navigation_def on_navigation_then_def Let_def
        icon_timeouts title_fields split: option.splits)
qed (use assms in \<open>simp_all add: dispatch_def management_getAll_then_def
      management_onEnabled_def update_all_page_action_icons_def emit_fields
      getPlatformInfo_then_def entry_kept_refresh entry_kept_startup tabs_onCreated_def
      tabs_onUpdated_def icon_timeouts title_fields split: list.splits\<close>)

lemma entry_deleted_by_firing:
  assumes "animation_timeouts s k \<noteq> None" and "animation_timeouts (step a s) k = None"
  shows "\<exists>t \<in> set (timers s). a = TimerFires (timer_handle t) \<and> timer_due t \<le> clock s"
proof (cases a)
  case (Host ev)
  with assms entry_kept_dispatch [of s k ev] show ?thesis by simp
next
  case (ClockAdvances t)
  with assms show ?thesis by (simp add: advance_clock_def)
next
  case (TimerFires h)
  show ?thesis
  proof (cases "find (\<lambda>t. timer_handle t = h) (timers s)")
    case None
    with assms TimerFires show ?thesis by (simp add: timer_fires_def)
  next
    case (Some t)
    then have t: "t \<in> set (timers s)" "timer_handle t = h"
      by (auto simp: find_Some_iff)
    from assms TimerFires Some have "\<not> clock s < timer_due t"
      by (auto simp: timer_fires_def)
    with t TimerFires show ?thesis by auto
  qed
qed

text \<open>
  C10. In a state the script can reach, if the timer map has an entry for a tab, then
  after a still (non-animated) icon update for that tab the entry is still there with
  the same handle, while no timer is pending for the tab any more; and whenever one
  step of the event loop removes the entry of a tab, that step is the firing of a timer
  that was pending and due. So a tab id in the timer map does not mean a pending timer.
\<close>

theorem stale_entry_after_skip:
  assumes "animation_timeouts (exec as (initial_state c)) (tab_id tab) = Some h"
  shows "animation_timeouts
           (update_page_action_icon tab False (exec as (initial_state c))) (tab_id tab) = Some h
       \<and> timers_of (tab_id tab)
           (update_page_action_icon tab False (exec as (initial_state c))) = []
       \<and> (\<forall>a. animation_timeouts (step a (exec as (initial_state c))) (tab_id tab) = None \<longrightarrow>
             (\<exists>t \<in> set (timers (exec as (initial_state c))).
                a = TimerFires (timer_handle t) \<and>
                timer_due t \<le> clock (exec as (initial_state c))))"
proof -
  have b: "bookkeeping (exec as (initial_state c))"
    by (simp add: bookkeeping_exec bookkeeping_initial)
  from assms have "animation_timeouts (exec as (initial_state c)) (tab_id tab) \<noteq> None"
    by simp
  from entry_deleted_by_firing [OF this] assms icon_clears_own [OF b, of tab]
  show ?thesis by (simp add: icon_timeouts)
qed

theorem stale_entry_after_skip_witness:
  "animation_timeouts
     (exec [Host (TabCreated \<lparr>tab_id = 1, status = ''loading''\<rparr>)] (initial_state 0)) 1 = Some 1
   \<and> timers (exec [Host (TabCreated \<lparr>tab_id = 1, status = ''loading''\<rparr>)] (initial_state 0)) =
       [\<lparr>timer_handle = 1, timer_due = 417,
         timer_tab = \<lparr>tab_id = 1, status = ''loading''\<rparr>\<rparr>]
   \<and> animation_timeouts
       (update_page_action_icon \<lparr>tab_id = 1, status = ''complete''\<rparr> False
          (exec [Host (TabCreated \<lparr>tab_id = 1, status = ''loading''\<rparr>)] (initial_state 0))) 1
       = Some 1
   \<and> timers_of 1
       (update_page_action_icon \<lparr>tab_id = 1, status = ''complete''\<rparr> False
          (exec [Host (TabCreated \<lparr>tab_id = 1, status = ''loading''\<rparr>)] (initial_state 0)))
       = []"
proof -
  have entry: "animation_timeouts
     (exec [Host (TabCreated \<lparr>tab_id = 1, status = ''loading''\<rparr>)] (initial_state 0))
     (tab_id \<lparr>tab_id = 1, status = ''complete''\<rparr>) = Some 1"
    by (simp add: dispatch_def tabs_onCreated_def icon_timeouts title_fields initial_state_def)
  have pending: "timers
     (exec [Host (TabCreated \<lparr>tab_id = 1, status = ''loading''\<rparr>)] (initial_state 0)) =
       [\<lparr>timer_handle = 1, timer_due = 417,
         timer_tab = \<lparr>tab_id = 1, status = ''loading''\<rparr>\<rparr>]"
    by (simp add: dispatch_def tabs_onCreated_def icon_timers title_fields initial_state_def)
  from stale_entry_after_skip [OF entry] entry pending show ?thesis
    by simp
qed

subsection \<open>The settle timer\<close>

lemma icon_shown_append:
  "icon_shown k (es @ es') =
     (case icon_shown k es' of Some r \<Rightarrow> Some r | None \<Rightarrow> icon_shown k es)"
  by (induction es) (auto split: option.splits effect.splits)

lemma icon_shown_other_icon:
  "k' \<noteq> k \<Longrightarrow>
   icon_shown k (es @ [(c, PageActionSetIcon k' p), (c', BrowserActionSetIcon k' p')]) =
     icon_shown k es"
  by (simp add: icon_shown_append)

lemma icon_shown_own_icon:
  "icon_shown k (es @ [(c, PageActionSetIcon k p), (c', BrowserActionSetIcon k p')]) =
     Some (c, p)"
  by (simp add: icon_shown_append)

lemma icon_shown_title:
  "icon_shown k (es @ [(c, PageActionShow k'), (c', PageActionSetTitle k' t),
                        (c'', BrowserActionSetTitle k' t')]) = icon_shown k es"
  by (simp add: icon_shown_append)

lemma icon_shown_query: "icon_shown k (es @ [(c, TabsQuery)]) = icon_shown k es"
  by (simp add: icon_shown_append)

lemma owned_at:
  assumes "bookkeeping s" and "t \<in> set (timers s)"
    and "animation_timeouts s k = Some (timer_handle t)"
  shows "k = tab_id (timer_tab t)"
  using assms by (auto simp: bookkeeping_def handles_owned_def)

text \<open>An icon update for another tab leaves a pending timer alone.\<close>

lemma icon_other_keeps_timer:
  assumes "bookkeeping s" and "t \<in> set (timers s)" and "tab_id tab \<noteq> tab_id (timer_tab t)"
  shows "t \<in> set (timers (update_page_action_icon tab a s))"
proof (cases "animation_timeouts s (tab_id tab)")
  case None
  with assms(2) show ?thesis by (simp add: icon_timers)
next
  case (Some h)
  have "timer_handle t \<noteq> h"
  proof
    assume "timer_handle t = h"
    with Some owned_at [OF assms(1,2), of "tab_id tab"] assms(3) show False by simp
  qed
  with Some assms(2) show ?thesis by (simp add: icon_timers)
qed

lemma icon_other_keeps_shown:
  "tab_id tab \<noteq> k \<Longrightarrow>
   icon_shown k (effects (update_page_action_icon tab a s)) = icon_shown k (effects s)"
  by (simp add: icon_effects icon_shown_other_icon)

lemma title_keeps_shown:
  "icon_shown k (effects (update_page_action tab s)) = icon_shown k (effects s)"
  by (simp add: title_effects icon_shown_title)


subsection \<open>Jobs that do not touch a tab\<close>

lemma refresh_keeps_shown:
  "k \<notin> set (map tab_id tabs) \<Longrightarrow>
   icon_shown k (effects (update_all_page_action_icons_then tabs s)) = icon_shown k (effects s)"
  by (induction tabs arbitrary: s)
     (simp_all add: update_all_page_action_icons_then_def icon_other_keeps_shown)

lemma startup_keeps_shown:
  "k \<notin> set (map tab_id tabs) \<Longrightarrow>
   icon_shown k (effects (startup_query_then tabs s)) = icon_shown k (effects s)"
  by (induction tabs arbitrary: s)
     (simp_all add: startup_query_then_def icon_other_keeps_shown title_keeps_shown)

lemma dispatch_keeps_shown:
  assumes "\<not> touches k ev"
  shows "icon_shown k (effects (dispatch ev s)) = icon_shown k (effects s)"
proof (cases ev)
  case (GetAllResolved extensions)
  then show ?thesis
    by (simp add: dispatch_def management_getAll_then_def update_all_page_action_icons_def
        emit_def icon_shown_query split: list.splits)
next
  case (ThemeEnabled info)
  then show ?thesis
    by (simp add: dispatch_def management_onEnabled_def update_all_page_action_icons_def
        emit_def icon_shown_query)
next
  case (PlatformInfoResolved os)
  then show ?thesis by (simp add: dispatch_def getPlatformInfo_then_def)
next
  case (RefreshQueryResolved tabs)
  with assms show ?thesis by (simp add: dispatch_def refresh_keeps_shown)
next
  case (StartupQueryResolved tabs)
  with assms show ?thesis by (simp add: dispatch_def startup_keeps_shown)
next
  case (TabCreated tab)
  with assms show ?thesis
    by (simp add: dispatch_def tabs_onCreated_def icon_other_keeps_shown title_keeps_shown)
next
  case (TabUpdated tab)
  then show ?thesis by (simp add: dispatch_def tabs_onUpdated_def title_keeps_shown)
next
  case (Navigation d fetched)
  show ?thesis
  proof (cases fetched)
    case None
    with Navigation show ?thesis by (simp add: dispatch_def on_navigation_def)
  next
    case (Some tab)
    with Navigation assms show ?thesis
      by (auto simp: dispatch_def on_navigation_def on_navigation_then_def Let_def
          icon_other_keeps_shown title_keeps_shown)
  qed
qed

lemma waiting_icon_other:
  "waiting tm s \<Longrightarrow> tab_id tab \<noteq> tab_id (timer_tab tm) \<Longrightarrow>
   waiting tm (update_page_action_icon tab a s)"
  by (simp add: waiting_def bookkeeping_icon icon_other_keeps_timer)

lemma waiting_title: "waiting tm (update_page_action tab s) = waiting tm s"
  by (simp add: waiting_def bookkeeping_title title_fields)

lemma waiting_refresh:
  "waiting tm s \<Longrightarrow> tab_id (timer_tab tm) \<notin> set (map tab_id tabs) \<Longrightarrow>
   waiting tm (update_all_page_action_icons_then tabs s)"
proof (induction tabs arbitrary: s)
  case Nil
  then show ?case by (simp add: update_all_page_action_icons_then_def)
next
  case (Cons tab tabs)
  from Cons.prems have "waiting tm (update_page_action_icon tab True s)"
    by (auto intro: waiting_icon_other)
  from Cons.IH [OF this] Cons.prems(2) show ?case
    by (simp add: update_all_page_action_icons_then_def)
qed

lemma waiting_startup:
  "waiting tm s \<Longrightarrow> tab_id (timer_tab tm) \<notin> set (map tab_id tabs) \<Longrightarrow>
   waiting tm (startup_query_then tabs s)"
proof (induction tabs arbitrary: s)
  case Nil
  then show ?case by (simp add: startup_query_then_def)
next
  case (Cons tab tabs)
  from Cons.prems
  have "waiting tm (update_page_action_icon tab True (update_page_action tab s))"
    by (auto intro: waiting_icon_other simp: waiting_title)
  from Cons.IH [OF this] Cons.prems(2) show ?case
    by (simp add: startup_query_then_def)
qed

lemma waiting_cong:
  "timers s' = timers s \<Longrightarrow> animation_timeouts s' = animation_timeouts s \<Longrightarrow>
   next_handle s' = next_handle s \<Longrightarrow> waiting tm s' = waiting tm s"
  by (simp add: waiting_def bookkeeping_cong [of s' s])

lemma waiting_dispatch:
  assumes "waiting tm s" and "\<not> touches (tab_id (timer_tab tm)) ev"
  shows "waiting tm (dispatch ev s)"
proof (cases ev)
  case (GetAllResolved extensions)
  have "waiting tm (update_all_page_action_icons (s\<lparr>is_theme_dark := b\<rparr>)) = waiting tm s"
    for b
    by (rule waiting_cong) (simp_all add: update_all_page_action_icons_def emit_fields)
  with assms GetAllResolved show ?thesis
    by (simp add: dispatch_def management_getAll_then_def split: list.splits)
next
  case (ThemeEnabled info)
  have "waiting tm (update_all_page_action_icons (s\<lparr>is_theme_dark := b\<rparr>)) = waiting tm s"
    for b
    by (rule waiting_cong) (simp_all add: update_all_page_action_icons_def emit_fields)
  with assms ThemeEnabled show ?thesis
    by (simp add: dispatch_def management_onEnabled_def)
next
  case (PlatformInfoResolved os)
  have "waiting tm (getPlatformInfo_then os s) = waiting tm s"
    by (rule waiting_cong) (simp_all add: getPlatformInfo_then_def)
  with assms PlatformInfoResolved show ?thesis by (simp add: dispatch_def)
next
  case (RefreshQueryResolved tabs)
  with assms show ?thesis by (simp add: dispatch_def waiting_refresh)
next
  case (StartupQueryResolved tabs)
  with assms show ?thesis by (simp add: dispatch_def waiting_startup)
next
  case (TabCreated tab)
  with assms show ?thesis
    by (simp add: dispatch_def tabs_onCreated_def waiting_icon_other waiting_title)
next
  case (TabUpdated tab)
  with assms show ?thesis by (simp add: dispatch_def tabs_onUpdated_def waiting_title)
next
  case (Navigation d fetched)
  show ?thesis
  proof (cases fetched)
    case None
    with Navigation assms show ?thesis by (simp add: dispatch_def on_navigation_def)
  next
    case (Some tab)
    have "waiting tm (on_navigation_then d tab s) =
          waiting tm (update_page_action_icon tab (should_animate (navigation_timestamp s) d)
                        (update_page_action tab s))"
      by (rule waiting_cong) (simp_all add: on_navigation_then_def Let_def)
    with Some Navigation assms show ?thesis
      by (auto simp: dispatch_def on_navigation_def waiting_icon_other waiting_title)
  qed
qed

lemma dispatch_clock: "clock (dispatch ev s) = clock s"
proof (cases ev)
  case (Navigation d fetched)
  then show ?thesis
    by (cases fetched)
       (simp_all add: dispatch_def on_navigation_def on_navigation_then_def Let_def
          icon_unchanged title_fields)
qed (simp_all add: dispatch_def management_getAll_then_def management_onEnabled_def
      update_all_page_action_icons_def emit_fields getPlatformInfo_then_def refresh_fields
      startup_fields tabs_onCreated_def tabs_onUpdated_def icon_unchanged title_fields
      split: list.splits)


subsection \<open>Timers firing\<close>

lemma callback_fields:
  "is_theme_dark (timeout_callback tab s) = is_theme_dark s"
  "clock (timeout_callback tab s) = clock s"
  "timers (timeout_callback tab s) = timers (update_page_action_icon tab False s)"
  "effects (timeout_callback tab s) = effects (update_page_action_icon tab False s)"
  "next_handle (timeout_callback tab s) = next_handle s"
  by (simp_all add: timeout_callback_def Let_def icon_unchanged icon_next_handle)

lemma timer_fires_fields:
  "is_theme_dark (timer_fires h s) = is_theme_dark s"
  "clock (timer_fires h s) = clock s"
  "next_handle (timer_fires h s) = next_handle s"
  by (simp_all add: timer_fires_def callback_fields split: option.splits)

lemma find_by_key:
  "distinct (map f xs) \<Longrightarrow> x \<in> set xs \<Longrightarrow> find (\<lambda>y. f y = f x) xs = Some x"
  by (induction xs) (auto simp: image_iff)

lemma find_waiting:
  "waiting tm s \<Longrightarrow> find (\<lambda>t. timer_handle t = timer_handle tm) (timers s) = Some tm"
  by (rule find_by_key) (simp_all add: waiting_def bookkeeping_def handles_fresh_def)

lemma waiting_drop:
  "waiting tm s \<Longrightarrow> timer_handle tm \<noteq> h \<Longrightarrow>
   waiting tm (s\<lparr>timers := filter (\<lambda>t. timer_handle t \<noteq> h) (timers s)\<rparr>)"
  by (simp add: waiting_def bookkeeping_drop)

lemma waiting_callback_other:
  assumes "waiting tm s" and "tab_id tab \<noteq> tab_id (timer_tab tm)"
  shows "waiting tm (timeout_callback tab s)"
proof -
  from assms have "waiting tm (update_page_action_icon tab False s)"
    by (rule waiting_icon_other)
  then have "tm \<in> set (timers (timeout_callback tab s))"
    by (simp add: waiting_def callback_fields)
  moreover from assms(1) have "bookkeeping (timeout_callback tab s)"
    by (simp add: waiting_def bookkeeping_callback)
  ultimately show ?thesis by (simp add: waiting_def)
qed

lemma other_timer_other_tab:
  assumes "waiting tm s" and "t \<in> set (timers s)" and "timer_handle t \<noteq> timer_handle tm"
  shows "tab_id (timer_tab t) \<noteq> tab_id (timer_tab tm)"
proof
  assume same: "tab_id (timer_tab t) = tab_id (timer_tab tm)"
  from assms(1) have b: "bookkeeping s" and tm: "tm \<in> set (timers s)"
    by (simp_all add: waiting_def)
  from tracked_at [OF b assms(2) same] tracked_at [OF b tm refl] assms(3)
  show False by simp
qed

lemma waiting_other_fires:
  assumes "waiting tm s" and "h \<noteq> timer_handle tm"
  shows "waiting tm (timer_fires h s)
       \<and> icon_shown (tab_id (timer_tab tm)) (effects (timer_fires h s)) =
           icon_shown (tab_id (timer_tab tm)) (effects s)"
proof (cases "find (\<lambda>t. timer_handle t = h) (timers s)")
  case None
  with assms(1) show ?thesis by (simp add: timer_fires_def)
next
  case (Some t)
  then have t: "t \<in> set (timers s)" "timer_handle t = h"
    by (auto simp: find_Some_iff)
  from t assms(2) have "timer_handle t \<noteq> timer_handle tm" by simp
  from other_timer_other_tab [OF assms(1) t(1) this]
  have other: "tab_id (timer_tab t) \<noteq> tab_id (timer_tab tm)" .
  let ?s' = "s\<lparr>timers := filter (\<lambda>t'. timer_handle t' \<noteq> h) (timers s)\<rparr>"
  from assms(2) have "timer_handle tm \<noteq> h" by simp
  from waiting_drop [OF assms(1) this] have "waiting tm ?s'" .
  from waiting_callback_other [OF this other]
  have "waiting tm (timeout_callback (timer_tab t) ?s')" .
  moreover have "icon_shown (tab_id (timer_tab tm))
                   (effects (timeout_callback (timer_tab t) ?s')) =
                 icon_shown (tab_id (timer_tab tm)) (effects s)"
    using other by (simp add: callback_fields icon_other_keeps_shown)
  ultimately show ?thesis
    using Some assms(1) by (simp add: timer_fires_def)
qed

lemma waiting_fires:
  assumes "waiting tm s" and "timer_due tm \<le> clock s"
  shows "settled (tab_id (timer_tab tm)) (timer_fires (timer_handle tm) s)
       \<and> icon_shown (tab_id (timer_tab tm)) (effects (timer_fires (timer_handle tm) s)) =
           Some (clock s, icon_path (is_theme_dark s) (status (timer_tab tm)) False (clock s))"
proof -
  let ?s' = "s\<lparr>timers := filter (\<lambda>t'. timer_handle t' \<noteq> timer_handle tm) (timers s)\<rparr>"
  from assms have fires: "timer_fires (timer_handle tm) s = timeout_callback (timer_tab tm) ?s'"
    by (simp add: timer_fires_def find_waiting)
  from assms(1) have b: "bookkeeping ?s'"
    by (simp add: waiting_def bookkeeping_drop)
  have "settled (tab_id (timer_tab tm)) (timeout_callback (timer_tab tm) ?s')"
    using b icon_clears_own [OF b, of "timer_tab tm"]
    by (simp add: settled_def bookkeeping_callback timers_of_def callback_fields)
  moreover have "icon_shown (tab_id (timer_tab tm))
                   (effects (timeout_callback (timer_tab tm) ?s')) =
       Some (clock s, icon_path (is_theme_dark s) (status (timer_tab tm)) False (clock s))"
    by (simp add: callback_fields icon_effects icon_shown_own_icon)
  ultimately show ?thesis by (simp add: fires)
qed

lemma icon_still_subset:
  "set (timers (update_page_action_icon tab False s)) \<subseteq> set (timers s)"
  by (auto simp: icon_timers split: option.splits)

lemma settled_fires:
  assumes "settled k s"
  shows "settled k (timer_fires h s)
       \<and> icon_shown k (effects (timer_fires h s)) = icon_shown k (effects s)"
proof (cases "find (\<lambda>t. timer_handle t = h) (timers s)")
  case None
  with assms show ?thesis by (simp add: timer_fires_def)
next
  case (Some t)
  then have t: "t \<in> set (timers s)"
    by (auto simp: find_Some_iff)
  from assms have none: "\<And>t. t \<in> set (timers s) \<Longrightarrow> tab_id (timer_tab t) \<noteq> k"
    by (simp add: settled_def timers_of_def filter_empty_conv)
  from none [OF t] have other: "tab_id (timer_tab t) \<noteq> k" .
  let ?s' = "s\<lparr>timers := filter (\<lambda>t'. timer_handle t' \<noteq> h) (timers s)\<rparr>"
  have sub: "set (timers (timeout_callback (timer_tab t) ?s')) \<subseteq> set (timers s)"
    using icon_still_subset [of "timer_tab t" ?s'] by (auto simp: callback_fields)
  have "timers_of k (timeout_callback (timer_tab t) ?s') = []"
    using sub none by (auto simp: timers_of_def filter_empty_conv)
  moreover from assms have "bookkeeping (timer_fires h s)"
    by (simp add: settled_def bookkeeping_timer_fires)
  moreover have "icon_shown k (effects (timeout_callback (timer_tab t) ?s')) =
                 icon_shown k (effects s)"
    using other by (simp add: callback_fields icon_other_keeps_shown)
  ultimately show ?thesis
    using Some assms by (auto simp: timer_fires_def settled_def)
qed


subsection \<open>The punctual host\<close>

lemma advance_fields:
  "is_theme_dark (advance_clock t s) = is_theme_dark s"
  "clock (advance_clock t s) = max (clock s) t"
  "timers (advance_clock t s) = timers s"
  "effects (advance_clock t s) = effects s"
  "next_handle (advance_clock t s) = next_handle s"
  "animation_timeouts (advance_clock t s) = animation_timeouts s"
  by (simp_all add: advance_clock_def)

lemma waiting_advance: "waiting tm (advance_clock t s) = waiting tm s"
  by (rule waiting_cong) (simp_all add: advance_fields)

lemma settled_advance: "settled k (advance_clock t s) = settled k s"
  by (simp add: settled_def bookkeeping_advance timers_of_def advance_fields)

lemma fire_at_due_fields:
  "is_theme_dark (fire_at_due t s) = is_theme_dark s"
  "clock (fire_at_due t s) = max (clock s) (timer_due t)"
  by (simp_all add: fire_at_due_def timer_fires_fields advance_fields)

lemma waiting_batch:
  assumes "waiting tm s" and "clock s \<le> B"
    and "\<forall>x \<in> set xs. timer_handle x \<noteq> timer_handle tm \<and> timer_due x \<le> B"
  shows "waiting tm (foldl (\<lambda>s' t. fire_at_due t s') s xs)
       \<and> clock (foldl (\<lambda>s' t. fire_at_due t s') s xs) \<le> B
       \<and> is_theme_dark (foldl (\<lambda>s' t. fire_at_due t s') s xs) = is_theme_dark s"
  using assms
proof (induction xs arbitrary: s)
  case Nil
  then show ?case by simp
next
  case (Cons x xs)
  from Cons.prems have "waiting tm (advance_clock (timer_due x) s)"
    by (simp add: waiting_advance)
  moreover from Cons.prems have "timer_handle x \<noteq> timer_handle tm" by simp
  ultimately have w: "waiting tm (fire_at_due x s)"
    using waiting_other_fires [of tm "advance_clock (timer_due x) s" "timer_handle x"]
    by (simp add: fire_at_due_def)
  from Cons.prems have c: "clock (fire_at_due x s) \<le> B"
    by (simp add: fire_at_due_fields)
  from Cons.prems have rest:
    "\<forall>x \<in> set xs. timer_handle x \<noteq> timer_handle tm \<and> timer_due x \<le> B"
    by simp
  from Cons.IH [OF w c rest] show ?case
    by (simp add: fire_at_due_fields)
qed

lemma settled_batch:
  assumes "settled k s"
  shows "settled k (foldl (\<lambda>s' t. fire_at_due t s') s ys)
       \<and> icon_shown k (effects (foldl (\<lambda>s' t. fire_at_due t s') s ys)) =
           icon_shown k (effects s)
       \<and> is_theme_dark (foldl (\<lambda>s' t. fire_at_due t s') s ys) = is_theme_dark s"
  using assms
proof (induction ys arbitrary: s)
  case Nil
  then show ?case by simp
next
  case (Cons y ys)
  from Cons.prems have "settled k (advance_clock (timer_due y) s)"
    by (simp add: settled_advance)
  from settled_fires [OF this, of "timer_handle y"]
  have s: "settled k (fire_at_due y s)"
    and i: "icon_shown k (effects (fire_at_due y s)) = icon_shown k (effects s)"
    by (simp_all add: fire_at_due_def advance_fields)
  from Cons.IH [OF s] i show ?case
    by (simp add: fire_at_due_fields)
qed

lemma waiting_distinct:
  assumes "waiting tm s" and "x \<in> set (timers s)" and "x \<noteq> tm"
  shows "timer_handle x \<noteq> timer_handle tm"
proof -
  from assms(1) have "distinct (map timer_handle (timers s))" and "tm \<in> set (timers s)"
    by (simp_all add: waiting_def bookkeeping_def handles_fresh_def)
  then have "inj_on timer_handle (set (timers s))"
    by (simp add: distinct_map)
  with assms(2,3) \<open>tm \<in> set (timers s)\<close> show ?thesis
    by (auto dest: inj_onD)
qed

lemma run_until_early:
  assumes "waiting tm s" and "clock s \<le> timer_due tm" and "T < timer_due tm"
  shows "waiting tm (run_until T s) \<and> clock (run_until T s) \<le> timer_due tm
       \<and> is_theme_dark (run_until T s) = is_theme_dark s"
proof -
  let ?xs = "sort_key timer_due (filter (\<lambda>t. timer_due t \<le> T) (timers s))"
  have "\<forall>x \<in> set ?xs. timer_handle x \<noteq> timer_handle tm \<and> timer_due x \<le> timer_due tm"
  proof
    fix x assume "x \<in> set ?xs"
    then have x: "x \<in> set (timers s)" "timer_due x \<le> T" by simp_all
    with assms(3) have "x \<noteq> tm" by auto
    from waiting_distinct [OF assms(1) x(1) this] x(2) assms(3)
    show "timer_handle x \<noteq> timer_handle tm \<and> timer_due x \<le> timer_due tm" by simp
  qed
  from waiting_batch [OF assms(1,2) this] assms(3) show ?thesis
    by (simp add: run_until_def waiting_advance advance_fields)
qed

lemma run_timed_early:
  assumes "waiting tm s" and "clock s \<le> timer_due tm"
    and "\<forall>e \<in> set evs. fst e < timer_due tm \<and> \<not> touches (tab_id (timer_tab tm)) (snd e)"
  shows "waiting tm (run_timed evs s) \<and> clock (run_timed evs s) \<le> timer_due tm"
  using assms
proof (induction evs arbitrary: s)
  case Nil
  then show ?case by simp
next
  case (Cons e evs)
  obtain t ev where e: "e = (t, ev)" by (cases e)
  with Cons.prems have t: "t < timer_due tm"
    and ev: "\<not> touches (tab_id (timer_tab tm)) ev" by simp_all
  from run_until_early [OF Cons.prems(1,2) t]
  have w: "waiting tm (run_until t s)" and c: "clock (run_until t s) \<le> timer_due tm"
    by simp_all
  from waiting_dispatch [OF w ev] have w': "waiting tm (dispatch ev (run_until t s))" .
  from c have c': "clock (dispatch ev (run_until t s)) \<le> timer_due tm"
    by (simp add: dispatch_clock)
  from Cons.prems(3) have rest:
    "\<forall>e \<in> set evs. fst e < timer_due tm \<and> \<not> touches (tab_id (timer_tab tm)) (snd e)"
    by simp
  from Cons.IH [OF w' c' rest] e show ?case by simp
qed

lemma run_until_fires:
  assumes "waiting tm s" and "clock s \<le> timer_due tm" and "timer_due tm \<le> T"
  shows "settled (tab_id (timer_tab tm)) (run_until T s)
       \<and> icon_shown (tab_id (timer_tab tm)) (effects (run_until T s)) =
           Some (timer_due tm,
                 icon_path (is_theme_dark s) (status (timer_tab tm)) False (timer_due tm))
       \<and> is_theme_dark (run_until T s) = is_theme_dark s"
proof -
  let ?k = "tab_id (timer_tab tm)"
  let ?L = "sort_key timer_due (filter (\<lambda>t. timer_due t \<le> T) (timers s))"
  from assms(1) have tm: "tm \<in> set (timers s)"
    and dist: "distinct (map timer_handle (timers s))"
    by (simp_all add: waiting_def bookkeeping_def handles_fresh_def)
  from tm assms(3) have "tm \<in> set ?L" by simp
  then obtain xs ys where L: "?L = xs @ tm # ys"
    by (meson split_list)
  have "sorted (map timer_due ?L)" by simp
  with L have early: "\<forall>x \<in> set xs. timer_due x \<le> timer_due tm"
    by (simp add: sorted_append)
  from dist have "distinct (timers s)" and inj: "inj_on timer_handle (set (timers s))"
    by (simp_all add: distinct_map)
  then have "distinct ?L" by simp
  with L have notin: "tm \<notin> set xs" by auto
  have sub: "set xs \<subseteq> set (timers s)"
  proof -
    have "set ?L \<subseteq> set (timers s)" by auto
    moreover have "set xs \<subseteq> set ?L" unfolding L by auto
    ultimately show ?thesis by blast
  qed
  have before: "\<forall>x \<in> set xs. timer_handle x \<noteq> timer_handle tm \<and> timer_due x \<le> timer_due tm"
  proof
    fix x assume x: "x \<in> set xs"
    with notin have "x \<noteq> tm" by auto
    from waiting_distinct [OF assms(1) _ this] sub x early
    show "timer_handle x \<noteq> timer_handle tm \<and> timer_due x \<le> timer_due tm" by auto
  qed
  let ?a = "foldl (\<lambda>s' t. fire_at_due t s') s xs"
  from waiting_batch [OF assms(1,2) before]
  have wa: "waiting tm ?a" and ca: "clock ?a \<le> timer_due tm"
    and da: "is_theme_dark ?a = is_theme_dark s" by simp_all
  let ?b = "fire_at_due tm ?a"
  from wa have "waiting tm (advance_clock (timer_due tm) ?a)"
    by (simp add: waiting_advance)
  from waiting_fires [OF this] ca da
  have sb: "settled ?k ?b"
    and ib: "icon_shown ?k (effects ?b) =
       Some (timer_due tm,
             icon_path (is_theme_dark s) (status (timer_tab tm)) False (timer_due tm))"
    by (simp_all add: fire_at_due_def advance_fields max_def)
  have db: "is_theme_dark ?b = is_theme_dark s"
    by (simp add: fire_at_due_fields da)
  from settled_batch [OF sb, of ys] ib db
  have "settled ?k (foldl (\<lambda>s' t. fire_at_due t s') ?b ys)"
    and "icon_shown ?k (effects (foldl (\<lambda>s' t. fire_at_due t s') ?b ys)) =
       Some (timer_due tm,
             icon_path (is_theme_dark s) (status (timer_tab tm)) False (timer_due tm))"
    and "is_theme_dark (foldl (\<lambda>s' t. fire_at_due t s') ?b ys) = is_theme_dark s"
    by simp_all
  then show ?thesis
    by (simp add: run_until_def L settled_advance advance_fields)
qed


subsection \<open>Handles are not reused\<close>

lemma spent_cong:
  "timers s' = timers s \<Longrightarrow> next_handle s' = next_handle s \<Longrightarrow> spent n s' = spent n s"
  by (simp add: spent_def)

lemma belongs_cong:
  "timers s' = timers s \<Longrightarrow> next_handle s' = next_handle s \<Longrightarrow>
   belongs n k s' = belongs n k s"
  by (simp add: belongs_def)

lemma spent_icon: "spent n s \<Longrightarrow> spent n (update_page_action_icon tab a s)"
  by (auto simp: spent_def icon_timers icon_next_handle split: option.splits)

lemma belongs_icon: "belongs n k s \<Longrightarrow> belongs n k (update_page_action_icon tab a s)"
  by (auto simp: belongs_def list_all_iff icon_timers icon_next_handle split: option.splits)

lemma spent_title: "spent n (update_page_action tab s) = spent n s"
  by (rule spent_cong) (simp_all add: title_fields)

lemma belongs_title: "belongs n k (update_page_action tab s) = belongs n k s"
  by (rule belongs_cong) (simp_all add: title_fields)

lemma spent_drop: "spent n s \<Longrightarrow> spent n (s\<lparr>timers := filter P (timers s)\<rparr>)"
  by (auto simp: spent_def)

lemma belongs_drop: "belongs n k s \<Longrightarrow> belongs n k (s\<lparr>timers := filter P (timers s)\<rparr>)"
  by (auto simp: belongs_def list_all_iff)

lemma spent_callback: "spent n s \<Longrightarrow> spent n (timeout_callback tab s)"
proof -
  assume "spent n s"
  then have "spent n (update_page_action_icon tab False s)" by (rule spent_icon)
  moreover have "spent n (timeout_callback tab s) = spent n (update_page_action_icon tab False s)"
    by (rule spent_cong) (simp_all add: callback_fields icon_next_handle)
  ultimately show ?thesis by simp
qed

lemma belongs_callback: "belongs n k s \<Longrightarrow> belongs n k (timeout_callback tab s)"
proof -
  assume "belongs n k s"
  then have "belongs n k (update_page_action_icon tab False s)" by (rule belongs_icon)
  moreover have "belongs n k (timeout_callback tab s) =
                 belongs n k (update_page_action_icon tab False s)"
    by (rule belongs_cong) (simp_all add: callback_fields icon_next_handle)
  ultimately show ?thesis by simp
qed

lemma spent_timer_fires: "spent n s \<Longrightarrow> spent n (timer_fires h s)"
  by (simp add: timer_fires_def spent_callback spent_drop split: option.splits)

lemma belongs_timer_fires: "belongs n k s \<Longrightarrow> belongs n k (timer_fires h s)"
  by (simp add: timer_fires_def belongs_callback belongs_drop split: option.splits)

lemma spent_refresh: "spent n s \<Longrightarrow> spent n (update_all_page_action_icons_then tabs s)"
  by (induction tabs arbitrary: s)
     (simp_all add: update_all_page_action_icons_then_def spent_icon)

lemma belongs_refresh:
  "belongs n k s \<Longrightarrow> belongs n k (update_all_page_action_icons_then tabs s)"
  by (induction tabs arbitrary: s)
     (simp_all add: update_all_page_action_icons_then_def belongs_icon)

lemma spent_startup: "spent n s \<Longrightarrow> spent n (startup_query_then tabs s)"
  by (induction tabs arbitrary: s)
     (simp_all add: startup_query_then_def spent_icon spent_title)

lemma belongs_startup: "belongs n k s \<Longrightarrow> belongs n k (startup_query_then tabs s)"
  by (induction tabs arbitrary: s)
     (simp_all add: startup_query_then_def belongs_icon belongs_title)

lemma dispatch_shape:
  "(timers (dispatch ev s) = timers s \<and> next_handle (dispatch ev s) = next_handle s) \<or>
   (\<exists>tabs. dispatch ev s = update_all_page_action_icons_then tabs s) \<or>
   (\<exists>tabs. dispatch ev s = startup_query_then tabs s) \<or>
   (\<exists>tab a s'. timers (dispatch ev s) = timers (update_page_action_icon tab a s') \<and>
       next_handle (dispatch ev s) = next_handle (update_page_action_icon tab a s') \<and>
       timers s' = timers s \<and> next_handle s' = next_handle s)"
proof (cases ev)
  case (RefreshQueryResolved tabs)
  then have "dispatch ev s = update_all_page_action_icons_then tabs s"
    by (simp add: dispatch_def)
  then show ?thesis by blast
next
  case (StartupQueryResolved tabs)
  then have "dispatch ev s = startup_query_then tabs s"
    by (simp add: dispatch_def)
  then show ?thesis by blast
next
  case (TabCreated tab)
  have "timers (update_page_action tab s) = timers s \<and>
        next_handle (update_page_action tab s) = next_handle s"
    by (simp add: title_fields)
  with TabCreated show ?thesis
    unfolding dispatch_def tabs_onCreated_def by (simp only: event.case) blast
next
  case (Navigation d fetched)
  show ?thesis
  proof (cases fetched)
    case None
    with Navigation show ?thesis by (simp add: dispatch_def on_navigation_def)
  next
    case (Some tab)
    show ?thesis
    proof (cases "frameId d = 0")
      case False
      with Navigation show ?thesis by (simp add: dispatch_def on_navigation_def)
    next
      case True
      have "timers (dispatch ev s) =
              timers (update_page_action_icon tab (should_animate (navigation_timestamp s) d)
                        (update_page_action tab s))"
        and "next_handle (dispatch ev s) =
              next_handle (update_page_action_icon tab (should_animate (navigation_timestamp s) d)
                        (update_page_action tab s))"
        using True Some Navigation
        by (simp_all add: dispatch_def on_navigation_def on_navigation_then_def Let_def)
      moreover have "timers (update_page_action tab s) = timers s \<and>
        next_handle (update_page_action tab s) = next_handle s"
        by (simp add: title_fields)
      ultimately show ?thesis by blast
    qed
  qed
qed (simp_all add: dispatch_def management_getAll_then_def management_onEnabled_def
      update_all_page_action_icons_def emit_fields getPlatformInfo_then_def
      tabs_onUpdated_def title_fields split: list.splits)

lemma spent_dispatch:
  assumes "spent n s"
  shows "spent n (dispatch ev s)"
  using dispatch_shape [of ev s]
proof (elim disjE exE conjE)
  assume "timers (dispatch ev s) = timers s" "next_handle (dispatch ev s) = next_handle s"
  with assms show ?thesis by (simp add: spent_def)
next
  fix tabs assume "dispatch ev s = update_all_page_action_icons_then tabs s"
  with assms show ?thesis by (simp add: spent_refresh)
next
  fix tabs assume "dispatch ev s = startup_query_then tabs s"
  with assms show ?thesis by (simp add: spent_startup)
next
  fix tab a s'
  assume d: "timers (dispatch ev s) = timers (update_page_action_icon tab a s')"
    "next_handle (dispatch ev s) = next_handle (update_page_action_icon tab a s')"
    and s': "timers s' = timers s" "next_handle s' = next_handle s"
  from assms s' have "spent n s'" by (simp add: spent_def)
  then have "spent n (update_page_action_icon tab a s')" by (rule spent_icon)
  with d show ?thesis by (simp add: spent_def)
qed

lemma belongs_dispatch:
  assumes "belongs n k s"
  shows "belongs n k (dispatch ev s)"
  using dispatch_shape [of ev s]
proof (elim disjE exE conjE)
  assume "timers (dispatch ev s) = timers s" "next_handle (dispatch ev s) = next_handle s"
  with assms show ?thesis by (simp add: belongs_def)
next
  fix tabs assume "dispatch ev s = update_all_page_action_icons_then tabs s"
  with assms show ?thesis by (simp add: belongs_refresh)
next
  fix tabs assume "dispatch ev s = startup_query_then tabs s"
  with assms show ?thesis by (simp add: belongs_startup)
next
  fix tab a s'
  assume d: "timers (dispatch ev s) = timers (update_page_action_icon tab a s')"
    "next_handle (dispatch ev s) = next_handle (update_page_action_icon tab a s')"
    and s': "timers s' = timers s" "next_handle s' = next_handle s"
  from assms s' have "belongs n k s'" by (simp add: belongs_def)
  then have "belongs n k (update_page_action_icon tab a s')" by (rule belongs_icon)
  with d show ?thesis by (simp add: belongs_def)
qed

lemma spent_advance: "spent n (advance_clock t s) = spent n s"
  by (rule spent_cong) (simp_all add: advance_fields)

lemma belongs_advance: "belongs n k (advance_clock t s) = belongs n k s"
  by (rule belongs_cong) (simp_all add: advance_fields)

lemma spent_step: "spent n s \<Longrightarrow> spent n (step a s)"
  by (cases a) (simp_all add: spent_dispatch spent_timer_fires spent_advance)

lemma belongs_step: "belongs n k s \<Longrightarrow> belongs n k (step a s)"
  by (cases a) (simp_all add: belongs_dispatch belongs_timer_fires belongs_advance)

lemma spent_exec: "spent n s \<Longrightarrow> spent n (exec as s)"
  by (induction as arbitrary: s) (simp_all add: spent_step)

lemma belongs_exec: "belongs n k s \<Longrightarrow> belongs n k (exec as s)"
  by (induction as arbitrary: s) (simp_all add: belongs_step)


subsection \<open>A later update for the tab cancels the timer\<close>

lemma icon_own_spends:
  assumes "bookkeeping s" and "belongs n (tab_id tab) s"
  shows "spent n (update_page_action_icon tab a s)"
proof -
  from assms(2) have n: "n < next_handle s"
    and own: "\<And>t. t \<in> set (timers s) \<Longrightarrow> timer_handle t = n \<Longrightarrow>
                tab_id (timer_tab t) = tab_id tab"
    by (auto simp: belongs_def list_all_iff)
  have "timer_handle t \<noteq> n"
    if "t \<in> set (case animation_timeouts s (tab_id tab) of
                     Some h \<Rightarrow> filter (\<lambda>t. timer_handle t \<noteq> h) (timers s)
                   | None \<Rightarrow> timers s)" for t
  proof
    assume "timer_handle t = n"
    moreover from that have "t \<in> set (timers s)" by (simp split: option.splits)
    ultimately have "tab_id (timer_tab t) = tab_id tab" by (rule own [rotated])
    with survivors_other [OF assms(1) that] show False by simp
  qed
  with n show ?thesis
    by (auto simp: spent_def icon_timers icon_next_handle)
qed

lemma refresh_own_spends:
  assumes "bookkeeping s" and "belongs n k s" and "k \<in> set (map tab_id tabs)"
  shows "spent n (update_all_page_action_icons_then tabs s)"
  using assms
proof (induction tabs arbitrary: s)
  case Nil
  then show ?case by simp
next
  case (Cons tab tabs)
  show ?case
  proof (cases "tab_id tab = k")
    case True
    with Cons.prems have "spent n (update_page_action_icon tab True s)"
      by (simp add: icon_own_spends)
    from spent_refresh [OF this, of tabs] show ?thesis
      by (simp add: update_all_page_action_icons_then_def)
  next
    case False
    with Cons.prems have "k \<in> set (map tab_id tabs)" by auto
    from Cons.IH [OF bookkeeping_icon [OF Cons.prems(1)] belongs_icon [OF Cons.prems(2)] this,
        of tab True]
    show ?thesis by (simp add: update_all_page_action_icons_then_def)
  qed
qed

lemma startup_own_spends:
  assumes "bookkeeping s" and "belongs n k s" and "k \<in> set (map tab_id tabs)"
  shows "spent n (startup_query_then tabs s)"
  using assms
proof (induction tabs arbitrary: s)
  case Nil
  then show ?case by simp
next
  case (Cons tab tabs)
  from Cons.prems have b: "bookkeeping (update_page_action tab s)"
    and o: "belongs n k (update_page_action tab s)"
    by (simp_all add: bookkeeping_title belongs_title)
  show ?case
  proof (cases "tab_id tab = k")
    case True
    with b o have "spent n (update_page_action_icon tab True (update_page_action tab s))"
      by (simp add: icon_own_spends)
    from spent_startup [OF this, of tabs] show ?thesis
      by (simp add: startup_query_then_def)
  next
    case False
    with Cons.prems have "k \<in> set (map tab_id tabs)" by auto
    from Cons.IH [OF bookkeeping_icon [OF b] belongs_icon [OF o] this, of tab True]
    show ?thesis by (simp add: startup_query_then_def)
  qed
qed

lemma touching_spends:
  assumes "bookkeeping s" and "belongs n k s" and "touches k ev"
  shows "spent n (dispatch ev s)"
proof (cases ev)
  case (RefreshQueryResolved tabs)
  with assms show ?thesis by (simp add: dispatch_def refresh_own_spends)
next
  case (StartupQueryResolved tabs)
  with assms show ?thesis by (simp add: dispatch_def startup_own_spends)
next
  case (TabCreated tab)
  with assms show ?thesis
    by (auto simp: dispatch_def tabs_onCreated_def bookkeeping_title belongs_title
        intro: icon_own_spends)
next
  case (Navigation d fetched)
  with assms obtain tab where f: "fetched = Some tab" and top: "frameId d = 0"
    and k: "tab_id tab = k"
    by (cases fetched) auto
  have "spent n (on_navigation_then d tab s) =
        spent n (update_page_action_icon tab (should_animate (navigation_timestamp s) d)
                   (update_page_action tab s))"
    by (rule spent_cong) (simp_all add: on_navigation_then_def Let_def)
  moreover from assms k
  have "spent n (update_page_action_icon tab (should_animate (navigation_timestamp s) d)
                   (update_page_action tab s))"
    by (auto simp: bookkeeping_title belongs_title intro: icon_own_spends)
  ultimately show ?thesis
    using Navigation f top by (simp add: dispatch_def on_navigation_def)
qed (use assms in simp_all)

lemma waiting_belongs:
  assumes "waiting tm s"
  shows "belongs (timer_handle tm) (tab_id (timer_tab tm)) s"
proof -
  from assms have "timer_handle tm < next_handle s"
    by (auto simp: waiting_def bookkeeping_def handles_fresh_def list_all_iff)
  moreover have "timer_handle t \<noteq> timer_handle tm \<or>
                 tab_id (timer_tab t) = tab_id (timer_tab tm)"
    if "t \<in> set (timers s)" for t
    using waiting_distinct [OF assms that] by auto
  ultimately show ?thesis by (simp add: belongs_def list_all_iff)
qed

lemma superseded_never_fires:
  assumes "waiting tm s" and "touches (tab_id (timer_tab tm)) ev"
  shows "spent (timer_handle tm) (exec (as1 @ Host ev # as2) s)"
proof -
  have split: "exec (xs @ ys) s' = exec ys (exec xs s')" for xs ys s'
    by (induction xs arbitrary: s') simp_all
  from assms(1) have "bookkeeping (exec as1 s)"
    by (simp add: waiting_def bookkeeping_exec)
  moreover from waiting_belongs [OF assms(1)]
  have "belongs (timer_handle tm) (tab_id (timer_tab tm)) (exec as1 s)"
    by (rule belongs_exec)
  ultimately have "spent (timer_handle tm) (dispatch ev (exec as1 s))"
    using assms(2) by (rule touching_spends)
  then have "spent (timer_handle tm) (exec as2 (dispatch ev (exec as1 s)))"
    by (rule spent_exec)
  then show ?thesis by (simp add: split)
qed

lemma spent_cannot_fire: "spent n s \<Longrightarrow> timer_fires n s = s"
proof -
  assume "spent n s"
  then have "find (\<lambda>t. timer_handle t = n) (timers s) = None"
    by (auto simp: spent_def find_None_iff)
  then show ?thesis by (simp add: timer_fires_def)
qed

lemma animated_waiting:
  assumes "bookkeeping s"
  shows "waiting \<lparr>timer_handle = next_handle s, timer_due = clock s + 417, timer_tab = tab\<rparr>
           (update_page_action_icon tab True s)"
  using assms by (simp add: waiting_def bookkeeping_icon icon_timers)

text \<open>
  C4. Let the bookkeeping hold in \<open>s\<close>, as it does in every state the script passes
  through (\<open>bookkeeping_initial\<close>, \<open>bookkeeping_exec\<close>, \<open>bookkeeping_icon\<close>,
  \<open>bookkeeping_title\<close>), and let an animated update for \<open>tab\<close> be made there, at
  clock reading \<open>clock s\<close>; it schedules the settle timer with handle
  \<open>next_handle s\<close>, due at \<open>clock s + 417\<close>.
  \<^item> On the punctual host, if none of the host events before \<open>clock s + 417\<close> makes an
    icon update for that tab, then once the clock has reached any \<open>T\<close> from
    \<open>clock s + 417\<close> on, the icon shown for the tab is the still icon for the status
    the tab had at the animated update (in the theme of that moment), it was applied at
    \<open>clock s + 417\<close> exactly, and no timer is pending for the tab.
  \<^item> In any run of the event loop, once a later job has made an icon update for that
    tab, animated or still, the timer's handle is not pending, whatever happens
    afterwards, and the firing of that handle does nothing.
\<close>

theorem animation_settles_unless_superseded:
  assumes "bookkeeping s"
  shows "(\<forall>evs T.
            (\<forall>e \<in> set evs. fst e < clock s + 417 \<and> \<not> touches (tab_id tab) (snd e)) \<longrightarrow>
            clock s + 417 \<le> T \<longrightarrow>
            (let final = run_until T (run_timed evs (update_page_action_icon tab True s))
             in icon_shown (tab_id tab) (effects final) =
                  Some (clock s + 417,
                        icon_path (is_theme_dark final) (status tab) False (clock s + 417))
                \<and> timers_of (tab_id tab) final = []))
       \<and> (\<forall>as1 ev as2.
            touches (tab_id tab) ev \<longrightarrow>
            (let later = exec (as1 @ Host ev # as2) (update_page_action_icon tab True s)
             in next_handle s \<notin> set (map timer_handle (timers later))
                \<and> timer_fires (next_handle s) later = later))"
proof -
  let ?tm = "\<lparr>timer_handle = next_handle s, timer_due = clock s + 417, timer_tab = tab\<rparr>"
  let ?s1 = "update_page_action_icon tab True s"
  have w: "waiting ?tm ?s1" using assms by (rule animated_waiting)
  have c: "clock ?s1 \<le> timer_due ?tm" by (simp add: icon_unchanged)
  have A: "icon_shown (tab_id tab) (effects (run_until T (run_timed evs ?s1))) =
             Some (clock s + 417,
                   icon_path (is_theme_dark (run_until T (run_timed evs ?s1)))
                     (status tab) False (clock s + 417))
           \<and> timers_of (tab_id tab) (run_until T (run_timed evs ?s1)) = []"
    if quiet: "\<forall>e \<in> set evs. fst e < clock s + 417 \<and> \<not> touches (tab_id tab) (snd e)"
      and T: "clock s + 417 \<le> T" for evs T
  proof -
    from quiet have "\<forall>e \<in> set evs. fst e < timer_due ?tm \<and>
                       \<not> touches (tab_id (timer_tab ?tm)) (snd e)"
      by simp
    from run_timed_early [OF w c this]
    have w': "waiting ?tm (run_timed evs ?s1)"
      and c': "clock (run_timed evs ?s1) \<le> timer_due ?tm" by simp_all
    from T have "timer_due ?tm \<le> T" by simp
    from run_until_fires [OF w' c' this] show ?thesis
      by (simp add: settled_def)
  qed
  have B: "next_handle s \<notin> set (map timer_handle
               (timers (exec (as1 @ Host ev # as2) ?s1)))
           \<and> timer_fires (next_handle s) (exec (as1 @ Host ev # as2) ?s1) =
               exec (as1 @ Host ev # as2) ?s1"
    if "touches (tab_id tab) ev" for as1 ev as2
  proof -
    from that have "touches (tab_id (timer_tab ?tm)) ev" by simp
    from superseded_never_fires [OF w this, of as1 as2]
    have sp: "spent (next_handle s) (exec (as1 @ Host ev # as2) ?s1)" by simp
    from spent_cannot_fire [OF sp] sp show ?thesis by (simp add: spent_def)
  qed
  from A B show ?thesis by (simp add: Let_def)
qed


theorem animation_settles_unless_superseded_witness:
  "bookkeeping (initial_state 0)
   \<and> icon_shown 3 (effects (run_until 417
       (run_timed [(100, TabUpdated \<lparr>tab_id = 3, status = ''complete''\<rparr>)]
          (update_page_action_icon \<lparr>tab_id = 3, status = ''loading''\<rparr> True
             (initial_state 0))))) = Some (417, ''data/stop_light.svg'')
   \<and> timers_of 3 (run_until 417
       (run_timed [(100, TabUpdated \<lparr>tab_id = 3, status = ''complete''\<rparr>)]
          (update_page_action_icon \<lparr>tab_id = 3, status = ''loading''\<rparr> True
             (initial_state 0)))) = []
   \<and> 1 \<notin> set (map timer_handle (timers
       (exec [Host (TabCreated \<lparr>tab_id = 3, status = ''complete''\<rparr>)]
          (update_page_action_icon \<lparr>tab_id = 3, status = ''loading''\<rparr> True
             (initial_state 0)))))"
proof -
  let ?tab = "\<lparr>tab_id = 3, status = ''loading''\<rparr>"
  let ?s1 = "update_page_action_icon ?tab True (initial_state 0)"
  let ?evs = "[(100, TabUpdated \<lparr>tab_id = 3, status = ''complete''\<rparr>)]"
  let ?final = "run_until 417 (run_timed ?evs ?s1)"
  have b: "bookkeeping (initial_state 0)" by (rule bookkeeping_initial)
  have dark: "is_theme_dark ?final = False"
    by (simp add: run_until_def fire_at_due_def timer_fires_def advance_clock_def dispatch_def
      tabs_onUpdated_def update_page_action_def update_page_action_icon_def
      timeout_callback_def emit_def setTimeout_def clearTimeout_def initial_state_def
      icon_path_def Let_def number_to_string_0)
  have quiet: "\<forall>e \<in> set ?evs. fst e < clock (initial_state 0) + 417 \<and>
                  \<not> touches (tab_id ?tab) (snd e)"
    by (simp add: initial_state_def)
  have T: "clock (initial_state 0) + 417 \<le> 417" by (simp add: initial_state_def)
  have touch: "touches (tab_id ?tab) (TabCreated \<lparr>tab_id = 3, status = ''complete''\<rparr>)"
    by simp
  note settle = animation_settles_unless_superseded [OF b, of ?tab, unfolded Let_def]
  have A: "icon_shown (tab_id ?tab) (effects ?final) =
             Some (clock (initial_state 0) + 417,
                   icon_path (is_theme_dark ?final) (status ?tab) False
                     (clock (initial_state 0) + 417))
           \<and> timers_of (tab_id ?tab) ?final = []"
    by (rule settle [THEN conjunct1, THEN spec, THEN spec, THEN mp, THEN mp, OF quiet T])
  have B: "next_handle (initial_state 0) \<notin> set (map timer_handle (timers
       (exec ([] @ Host (TabCreated \<lparr>tab_id = 3, status = ''complete''\<rparr>) # []) ?s1)))"
    by (rule settle [THEN conjunct2, THEN spec, THEN spec, THEN spec, THEN mp, OF touch,
          THEN conjunct1])
  from A B dark b show ?thesis
    by (simp add: initial_state_def icon_path_settled del: set_simps list.map)
qed

end
